theory Spec2Isabelle
  imports Main "HOL-Library.Multiset"
begin

section \<open>Exercise tracker: the request handlers of index.js\<close>

text \<open>
  The program is a single file of four JSON request handlers over two collections of a
  document store (users and exercises); a fifth route serves a static page and touches
  neither collection. The handlers are embedded as functions from an
  environment, a store and the request's fields to a response and the store afterwards.
  What the handlers take from the JavaScript runtime (truthiness, \<open>String.prototype.trim\<close>,
  \<open>parseInt\<close>, \<open>Date\<close>) and from the store client (lookup by id, filtered query with sort and
  limit, insert) is written out below, as far as the handlers depend on it.

  Scope of the model:
  \<^item> a string is the list of its UTF-16 code units (numbers from 0 to 65535), as in
    JavaScript; the ASCII texts of the program and of the examples are turned into code
    units by \<open>str\<close>;
  \<^item> a body field is absent or a scalar JSON value, the numbers being the integers; a query
    parameter is absent or a string (arrays and nested objects are left out);
  \<^item> numbers are unbounded integers. They are the runtime's numbers up to \<open>2^53\<close> in
    magnitude; beyond that the runtime rounds to a double, writes a number from the digits
    that identify the double (with an exponent from \<open>10^21\<close>) and reads a digit string
    beyond the doubles as \<open>Infinity\<close>, and the store bounds a limit. Whether \<open>parseInt\<close>
    reads a number at all, which is what the checks of the handlers ask, is the same for
    every input;
  \<^item> the store is two lists of records in the order of insertion; it answers an operation
    or rejects it whole.
\<close>

subsection \<open>Strings\<close>

type_synonym code_unit = int

type_synonym jstring = "code_unit list"

text \<open>The code unit of an ASCII character and the string of an ASCII text.\<close>

definition cu :: "char \<Rightarrow> code_unit" where
  "cu c = of_char c"

definition str :: "string \<Rightarrow> jstring" where
  "str s = map cu s"

text \<open>
  White space as \<open>String.prototype.trim\<close> and \<open>parseInt\<close> strip it: ECMAScript's
  \<open>WhiteSpace\<close> and \<open>LineTerminator\<close>. These are tab, line feed, vertical tab, form feed,
  carriage return and space; the no-break space U+00A0; U+1680; U+2000 to U+200A; the line
  and paragraph separators U+2028 and U+2029; U+202F; U+205F; U+3000; and the byte order
  mark U+FEFF.
\<close>

definition is_ws :: "code_unit \<Rightarrow> bool" where
  "is_ws c =
     (c \<in> {0x09, 0x0A, 0x0B, 0x0C, 0x0D, 0x20, 0xA0, 0x1680, 0x2028, 0x2029, 0x202F, 0x205F,
            0x3000, 0xFEFF}
      \<or> (0x2000 \<le> c \<and> c \<le> 0x200A))"

definition trim_start :: "jstring \<Rightarrow> jstring" where
  "trim_start s = dropWhile is_ws s"

definition trim_end :: "jstring \<Rightarrow> jstring" where
  "trim_end s = rev (dropWhile is_ws (rev s))"

text \<open>\<open>String.prototype.trim\<close>: white space removed at both ends.\<close>

definition trim :: "jstring \<Rightarrow> jstring" where
  "trim s = trim_end (trim_start s)"

definition is_digit :: "code_unit \<Rightarrow> bool" where
  "is_digit c = (cu CHR ''0'' \<le> c \<and> c \<le> cu CHR ''9'')"

definition digit_val :: "code_unit \<Rightarrow> int" where
  "digit_val c = c - cu CHR ''0''"

definition digit_char :: "int \<Rightarrow> code_unit" where
  "digit_char d = cu CHR ''0'' + d"

text \<open>The value of a string of decimal digits, most significant digit first.\<close>

definition digits_val :: "jstring \<Rightarrow> int" where
  "digits_val ds = foldl (\<lambda>acc c. 10 * acc + digit_val c) 0 ds"

text \<open>The decimal digits of a natural number, without leading zeros (\<open>0\<close> is \<open>''0''\<close>).\<close>

fun nat_digits :: "nat \<Rightarrow> jstring" where
  "nat_digits n =
     (if n < 10 then [digit_char (int n)]
      else nat_digits (n div 10) @ [digit_char (int (n mod 10))])"

declare nat_digits.simps [simp del]

definition int_string :: "int \<Rightarrow> jstring" where
  "int_string i = (if i < 0 then cu CHR ''-'' # nat_digits (nat (- i)) else nat_digits (nat i))"

subsection \<open>JavaScript values of request fields\<close>

datatype jsval = VUndefined | VNull | VBool bool | VNum int | VStr jstring

text \<open>A query parameter as express hands it over: absent, or the string of the URL.\<close>

definition qparam :: "jstring option \<Rightarrow> jsval" where
  "qparam p = (case p of None \<Rightarrow> VUndefined | Some s \<Rightarrow> VStr s)"

text \<open>ToBoolean, as used by \<open>!x\<close>, \<open>x || y\<close> and \<open>x && y\<close>.\<close>

fun truthy :: "jsval \<Rightarrow> bool" where
  "truthy VUndefined = False"
| "truthy VNull = False"
| "truthy (VBool b) = b"
| "truthy (VNum n) = (n \<noteq> 0)"
| "truthy (VStr s) = (s \<noteq> [])"

text \<open>
  ToString, applied by \<open>parseInt\<close> to its argument. An integer up to \<open>2^53\<close> in magnitude is
  written with all its digits. (A larger number the runtime writes from the shortest digits
  that identify its double, with an exponent from \<open>10^21\<close>: outside this model. In either
  form the text begins with a digit, after a minus sign if the number is negative.)
\<close>

fun ToString :: "jsval \<Rightarrow> jstring" where
  "ToString VUndefined = str ''undefined''"
| "ToString VNull = str ''null''"
| "ToString (VBool b) = (if b then str ''true'' else str ''false'')"
| "ToString (VNum n) = int_string n"
| "ToString (VStr s) = s"

datatype exn = TypeError | CastError | ValidationError | MongoError

text \<open>
  The method call \<open>x.trim()\<close>: only a string has the method; on \<open>undefined\<close> and \<open>null\<close> the
  property access throws, on a number or a boolean the call of \<open>undefined\<close> throws.
\<close>

fun call_trim :: "jsval \<Rightarrow> exn + jstring" where
  "call_trim (VStr s) = Inr (trim s)"
| "call_trim _ = Inl TypeError"

subsection \<open>parseInt with radix 10\<close>

text \<open>
  \<open>parseInt(x, 10)\<close>: leading white space is skipped, one sign is read, then the longest run
  of decimal digits; what follows the digits is ignored. No digit gives \<open>NaN\<close> (here \<open>None\<close>).
  The value is the integer the digits write; the runtime's value is the double nearest to
  it, the same number up to \<open>2^53\<close>.
\<close>

definition parseInt10 :: "jstring \<Rightarrow> int option" where
  "parseInt10 input =
     (let s = trim_start input;
          neg = (s \<noteq> [] \<and> hd s = cu CHR ''-'');
          s1 = (if s \<noteq> [] \<and> (hd s = cu CHR ''+'' \<or> hd s = cu CHR ''-'') then tl s else s);
          z = takeWhile is_digit s1
      in if z = [] then None
         else Some (if neg then - digits_val z else digits_val z))"

definition parseInt :: "jsval \<Rightarrow> int option" where
  "parseInt v = parseInt10 (ToString v)"

subsection \<open>Dates\<close>

text \<open>
  A valid \<open>Date\<close> is its time value, the milliseconds since 1970-01-01T00:00:00Z; an
  invalid one (time value \<open>NaN\<close>) is \<open>None\<close>. The day arithmetic follows ECMAScript's
  \<open>DayFromYear\<close>, \<open>MakeDay\<close> and \<open>WeekDay\<close>.
\<close>

definition msPerDay :: int where
  "msPerDay = 86400000"

definition TimeClip :: "int \<Rightarrow> int option" where
  "TimeClip t = (if \<bar>t\<bar> > 8640000000000000 then None else Some t)"

definition DayFromYear :: "int \<Rightarrow> int" where
  "DayFromYear y =
     365 * (y - 1970) + (y - 1969) div 4 - (y - 1901) div 100 + (y - 1601) div 400"

definition InLeapYear :: "int \<Rightarrow> bool" where
  "InLeapYear y = (y mod 4 = 0 \<and> (y mod 100 \<noteq> 0 \<or> y mod 400 = 0))"

definition DaysInMonth :: "int \<Rightarrow> int \<Rightarrow> int" where
  "DaysInMonth y m =
     (if m = 2 then (if InLeapYear y then 29 else 28)
      else if m \<in> {4, 6, 9, 11} then 30 else 31)"

text \<open>Days of the year before the first of month \<open>m\<close> (1 to 12).\<close>

definition DaysBeforeMonth :: "int \<Rightarrow> int \<Rightarrow> int" where
  "DaysBeforeMonth y m = sum_list (map (DaysInMonth y) [1..m - 1])"

text \<open>The day number of a calendar date, month and day counted from 1.\<close>

definition MakeDay :: "int \<Rightarrow> int \<Rightarrow> int \<Rightarrow> int" where
  "MakeDay y m d = DayFromYear y + DaysBeforeMonth y m + d - 1"

text \<open>
  The date-only form \<open>YYYY-MM-DD\<close> of the ECMAScript date-time string format: midnight UTC
  of that day. A string of another shape, or naming a day the month does not have, is not
  decided here.
\<close>

definition iso_date_only :: "jstring \<Rightarrow> int option" where
  "iso_date_only s =
     (if length s = 10 \<and> s ! 4 = cu CHR ''-'' \<and> s ! 7 = cu CHR ''-''
         \<and> list_all is_digit (take 4 s) \<and> list_all is_digit (take 2 (drop 5 s))
         \<and> list_all is_digit (drop 8 s)
      then
        (let y = digits_val (take 4 s);
             m = digits_val (take 2 (drop 5 s));
             d = digits_val (drop 8 s)
         in if 1 \<le> m \<and> m \<le> 12 \<and> 1 \<le> d \<and> d \<le> DaysInMonth y m
            then Some (MakeDay y m d * msPerDay) else None)
      else None)"

text \<open>
  The day number as a calendar date \<open>(year, month, day)\<close>, month and day counted from 1.
  Days are counted from 0000-03-01, so that the leap day ends a cycle of four years,
  the centuries and the 400 years. The date found is the date of the calendar whose
  \<open>MakeDay\<close> is the day number (\<open>civil_from_day_correct\<close> below).
\<close>

definition civil_from_day :: "int \<Rightarrow> int \<times> int \<times> int" where
  "civil_from_day day =
     (let z = day + 719468;
          n400 = z div 146097;
          r400 = z mod 146097;
          n100 = min 3 (r400 div 36524);
          r100 = r400 - n100 * 36524;
          n4 = r100 div 1461;
          r4 = r100 mod 1461;
          n1 = min 3 (r4 div 365);
          doy = r4 - n1 * 365;
          mp = (5 * doy + 2) div 153;
          d = doy - (153 * mp + 2) div 5 + 1;
          m = (if mp < 10 then mp + 3 else mp - 9);
          y = 400 * n400 + 100 * n100 + 4 * n4 + n1 + (if m \<le> 2 then 1 else 0)
      in (y, m, d))"

text \<open>
  The days from 0000-03-01 to the first of March of year \<open>Y\<close>, in ECMAScript's style of
  counting leap days; it relates the cycles above to \<open>DayFromYear\<close>.
\<close>

definition march_days :: "int \<Rightarrow> int" where
  "march_days Y = 365 * Y + Y div 4 - Y div 100 + Y div 400"

definition WeekDay :: "int \<Rightarrow> int" where
  "WeekDay day = (day + 4) mod 7"

definition weekday_names :: "jstring list" where
  "weekday_names = map str [''Sun'', ''Mon'', ''Tue'', ''Wed'', ''Thu'', ''Fri'', ''Sat'']"

definition month_names :: "jstring list" where
  "month_names = map str [''Jan'', ''Feb'', ''Mar'', ''Apr'', ''May'', ''Jun'',
                          ''Jul'', ''Aug'', ''Sep'', ''Oct'', ''Nov'', ''Dec'']"

definition pad2 :: "int \<Rightarrow> jstring" where
  "pad2 d = [digit_char (d div 10), digit_char (d mod 10)]"

text \<open>The year of a date string: at least four digits, a minus sign before a negative year.\<close>

definition year_string :: "int \<Rightarrow> jstring" where
  "year_string y =
     (let ds = nat_digits (nat \<bar>y\<bar>)
      in (if y < 0 then str ''-'' else str '''') @ replicate (4 - length ds) (cu CHR ''0'') @ ds)"

subsection \<open>The environment of a request\<close>

text \<open>
  What a handler reads from outside the store and the request:
  \<^item> \<open>now\<close>: the clock, read by \<open>new Date()\<close>;
  \<^item> \<open>tza\<close>: the offset of local time from UTC at a time value, in milliseconds
    (\<open>toDateString\<close> renders local time);
  \<^item> \<open>legacy_parse\<close>: what the runtime's date parser makes of a string that is not a
    calendar date in the form \<open>YYYY-MM-DD\<close> (implementation-defined in ECMAScript);
  \<^item> \<open>cast_id\<close>: the store client's cast of a path parameter to a document id
    (\<open>None\<close>: the string is not the text of an id);
  \<^item> \<open>fresh_id\<close>: the id the client gives the document it inserts;
  \<^item> \<open>findById_fails\<close>, \<open>find_fails\<close>, \<open>create_fails\<close>: the store rejects the operation
    (a lost connection, say). A rejected insert stores nothing.
\<close>

type_synonym oid = jstring

record env =
  now :: int
  tza :: "int \<Rightarrow> int"
  legacy_parse :: "jstring \<Rightarrow> int option"
  cast_id :: "jstring \<Rightarrow> oid option"
  fresh_id :: oid
  findById_fails :: bool
  find_fails :: bool
  create_fails :: bool

text \<open>
  \<open>Date.parse\<close>: the empty string is no date; the form \<open>YYYY-MM-DD\<close> is read as above;
  every other string is left to the runtime.
\<close>

definition Date_parse :: "env \<Rightarrow> jstring \<Rightarrow> int option" where
  "Date_parse env s =
     (if s = [] then None
      else case iso_date_only s of
             Some t \<Rightarrow> Some t
           | None \<Rightarrow> (case legacy_parse env s of None \<Rightarrow> None | Some t \<Rightarrow> TimeClip t))"

text \<open>\<open>new Date(x)\<close> with one argument: a string is parsed, any other value is a number.\<close>

fun new_Date :: "env \<Rightarrow> jsval \<Rightarrow> int option" where
  "new_Date env VUndefined = None"
| "new_Date env VNull = Some 0"
| "new_Date env (VBool b) = Some (if b then 1 else 0)"
| "new_Date env (VNum n) = TimeClip n"
| "new_Date env (VStr s) = Date_parse env s"

text \<open>\<open>Date.prototype.toDateString\<close> of a valid date: week day, month, day and year of local time.\<close>

definition toDateString :: "env \<Rightarrow> int \<Rightarrow> jstring" where
  "toDateString env t =
     (let day = (t + tza env t) div msPerDay;
          (y, m, d) = civil_from_day day
      in weekday_names ! nat (WeekDay day) @ str '' '' @ month_names ! nat (m - 1) @ str '' ''
           @ pad2 d @ str '' '' @ year_string y)"

subsection \<open>The store\<close>

record user =
  u_id :: oid
  u_username :: jstring

record exercise =
  e_id :: oid
  e_userId :: oid
  e_description :: jstring
  e_duration :: int
  e_date :: int

record store =
  users :: "user list"
  exercises :: "exercise list"

text \<open>\<open>User.findById(_id)\<close>: the id is cast first; a string that is no id is a cast error.\<close>

definition User_findById :: "env \<Rightarrow> store \<Rightarrow> jstring \<Rightarrow> exn + user option" where
  "User_findById env st ident =
     (case cast_id env ident of
        None \<Rightarrow> Inl CastError
      | Some i \<Rightarrow>
          if findById_fails env then Inl MongoError
          else Inr (find (\<lambda>u. u_id u = i) (users st)))"

text \<open>
  \<open>User.create\<close> and \<open>Exercise.create\<close>: the schema trims the strings and requires them
  (an empty string fails validation); then one document is inserted.
\<close>

definition User_create :: "env \<Rightarrow> store \<Rightarrow> jstring \<Rightarrow> (exn + user) \<times> store" where
  "User_create env st name =
     (let u = \<lparr>u_id = fresh_id env, u_username = trim name\<rparr>
      in if u_username u = [] then (Inl ValidationError, st)
         else if create_fails env then (Inl MongoError, st)
         else (Inr u, st\<lparr>users := users st @ [u]\<rparr>))"

definition Exercise_create ::
    "env \<Rightarrow> store \<Rightarrow> oid \<Rightarrow> jstring \<Rightarrow> int \<Rightarrow> int \<Rightarrow> (exn + exercise) \<times> store" where
  "Exercise_create env st uid description dur d =
     (let ex = \<lparr>e_id = fresh_id env, e_userId = uid, e_description = trim description,
                e_duration = dur, e_date = d\<rparr>
      in if e_description ex = [] then (Inl ValidationError, st)
         else if create_fails env then (Inl MongoError, st)
         else (Inr ex, st\<lparr>exercises := exercises st @ [ex]\<rparr>))"

text \<open>
  The filter of the logs query: the owner, and the \<open>date\<close> condition when the key is there,
  with its optional \<open>$gte\<close> and \<open>$lte\<close>.
\<close>

record date_cond =
  c_gte :: "int option"
  c_lte :: "int option"

record query =
  q_userId :: oid
  q_date :: "date_cond option"

definition matches :: "query \<Rightarrow> exercise \<Rightarrow> bool" where
  "matches q e =
     (e_userId e = q_userId q \<and>
      (case q_date q of
         None \<Rightarrow> True
       | Some c \<Rightarrow>
           (case c_gte c of None \<Rightarrow> True | Some lo \<Rightarrow> lo \<le> e_date e) \<and>
           (case c_lte c of None \<Rightarrow> True | Some hi \<Rightarrow> e_date e \<le> hi)))"

text \<open>
  \<open>Exercise.find(q).sort({date: 1})\<close>, with \<open>.limit(n)\<close> when a limit is set, run by
  \<open>.lean()\<close>. A \<open>date\<close> condition with no operator is an empty object where a date is asked
  for: the cast of the filter fails. The order among records of one date is the store's;
  here they keep the order of the collection.
\<close>

definition Exercise_find :: "env \<Rightarrow> store \<Rightarrow> query \<Rightarrow> int option \<Rightarrow> exn + exercise list" where
  "Exercise_find env st q lim =
     (if q_date q = Some \<lparr>c_gte = None, c_lte = None\<rparr> then Inl CastError
      else if find_fails env then Inl MongoError
      else (let found = sort_key e_date (filter (matches q) (exercises st))
            in Inr (case lim of None \<Rightarrow> found | Some n \<Rightarrow> take (nat n) found)))"

text \<open>\<open>User.find({}, 'username _id').lean()\<close>.\<close>

definition User_find_all :: "env \<Rightarrow> store \<Rightarrow> exn + user list" where
  "User_find_all env st = (if find_fails env then Inl MongoError else Inr (users st))"

subsection \<open>Responses\<close>

datatype json = JString jstring | JNumber int | JArray "json list" | JObject "(string \<times> json) list"

record response =
  status :: nat
  body :: json

definition ok :: "json \<Rightarrow> response" where
  "ok b = \<lparr>status = 200, body = b\<rparr>"

definition bad_request :: "string \<Rightarrow> response" where
  "bad_request msg = \<lparr>status = 400, body = JObject [(''error'', JString (str msg))]\<rparr>"

text \<open>The error handler at the end of the file: whatever a handler passes to \<open>next\<close>.\<close>

definition server_error :: response where
  "server_error = \<lparr>status = 500, body = JObject [(''error'', JString (str ''server error''))]\<rparr>"

definition catch_next :: "(exn + response) \<times> store \<Rightarrow> response \<times> store" where
  "catch_next r = (case fst r of Inl e \<Rightarrow> (server_error, snd r) | Inr res \<Rightarrow> (res, snd r))"

text \<open>The value of a key of a JSON object, and its keys in order.\<close>

fun field :: "string \<Rightarrow> json \<Rightarrow> json option" where
  "field k (JObject kvs) = map_of kvs k"
| "field k _ = None"

fun keys :: "json \<Rightarrow> string list" where
  "keys (JObject kvs) = map fst kvs"
| "keys _ = []"

fun elements :: "json \<Rightarrow> json list" where
  "elements (JArray xs) = xs"
| "elements _ = []"

text \<open>The three failures of the specification, as the responses that carry them.\<close>

definition unknown_user :: response where
  "unknown_user = bad_request ''unknown userId''"

definition invalid_exercise :: response where
  "invalid_exercise =
     bad_request ''description and duration required (duration must be a number)''"

definition invalid_username :: response where
  "invalid_username = bad_request ''username required''"


subsection \<open>The handlers\<close>

text \<open>
  Each handler is its \<open>try\<close> block, giving a response or the exception thrown together with
  the store afterwards, under \<open>catch_next\<close> for \<open>catch (err) { next(err); }\<close>.
\<close>

text \<open>\<open>POST /api/users\<close>, body \<open>{ username }\<close>.\<close>

definition post_users_try :: "env \<Rightarrow> store \<Rightarrow> jsval \<Rightarrow> (exn + response) \<times> store" where
  "post_users_try env st username =
     (if \<not> truthy username then (Inr invalid_username, st)
      else case call_trim username of
             Inl e \<Rightarrow> (Inl e, st)
           | Inr t \<Rightarrow>
               if t = [] then (Inr invalid_username, st)
               else case User_create env st t of
                      (Inl e, st') \<Rightarrow> (Inl e, st')
                    | (Inr u, st') \<Rightarrow>
                        (Inr (ok (JObject [(''username'', JString (u_username u)),
                                           (''_id'', JString (u_id u))])), st'))"

definition post_users :: "env \<Rightarrow> store \<Rightarrow> jsval \<Rightarrow> response \<times> store" where
  "post_users env st username = catch_next (post_users_try env st username)"

text \<open>\<open>GET /api/users\<close>.\<close>

definition get_users_try :: "env \<Rightarrow> store \<Rightarrow> (exn + response) \<times> store" where
  "get_users_try env st =
     (case User_find_all env st of
        Inl e \<Rightarrow> (Inl e, st)
      | Inr us \<Rightarrow>
          (Inr (ok (JArray (map (\<lambda>u. JObject [(''_id'', JString (u_id u)),
                                               (''username'', JString (u_username u))]) us))),
           st))"

definition get_users :: "env \<Rightarrow> store \<Rightarrow> response \<times> store" where
  "get_users env st = catch_next (get_users_try env st)"

text \<open>\<open>POST /api/users/:_id/exercises\<close>, body \<open>{ description, duration, date? }\<close>.\<close>

definition exercise_date :: "env \<Rightarrow> jsval \<Rightarrow> int" where
  "exercise_date env date =
     (case new_Date env date of
        None \<Rightarrow> now env
      | Some d \<Rightarrow> if \<not> truthy date then now env else d)"

definition post_exercises_try ::
    "env \<Rightarrow> store \<Rightarrow> jstring \<Rightarrow> jsval \<Rightarrow> jsval \<Rightarrow> jsval \<Rightarrow> (exn + response) \<times> store" where
  "post_exercises_try env st ident description duration date =
     (case User_findById env st ident of
        Inl e \<Rightarrow> (Inl e, st)
      | Inr None \<Rightarrow> (Inr unknown_user, st)
      | Inr (Some user) \<Rightarrow>
          (let dur = parseInt duration
           in if \<not> truthy description then (Inr invalid_exercise, st)
              else case call_trim description of
                     Inl e \<Rightarrow> (Inl e, st)
                   | Inr t \<Rightarrow>
                       if t = [] then (Inr invalid_exercise, st)
                       else case dur of
                              None \<Rightarrow> (Inr invalid_exercise, st)
                            | Some n \<Rightarrow>
                                (case Exercise_create env st (u_id user) t n
                                        (exercise_date env date) of
                                   (Inl e, st') \<Rightarrow> (Inl e, st')
                                 | (Inr ex, st') \<Rightarrow>
                                     (Inr (ok (JObject
                                        [(''_id'', JString (u_id user)),
                                         (''username'', JString (u_username user)),
                                         (''description'', JString (e_description ex)),
                                         (''duration'', JNumber (e_duration ex)),
                                         (''date'', JString (toDateString env (e_date ex)))])),
                                      st'))))"

definition post_exercises ::
    "env \<Rightarrow> store \<Rightarrow> jstring \<Rightarrow> jsval \<Rightarrow> jsval \<Rightarrow> jsval \<Rightarrow> response \<times> store" where
  "post_exercises env st ident description duration date =
     catch_next (post_exercises_try env st ident description duration date)"

text \<open>\<open>GET /api/users/:_id/logs?[from][&to][&limit]\<close>.\<close>

definition valid_bound :: "env \<Rightarrow> jstring option \<Rightarrow> bool" where
  "valid_bound env p = (truthy (qparam p) \<and> new_Date env (qparam p) \<noteq> None)"

definition build_query ::
    "env \<Rightarrow> oid \<Rightarrow> jstring option \<Rightarrow> jstring option \<Rightarrow> query" where
  "build_query env uid from to =
     (let q = \<lparr>q_userId = uid, q_date = None\<rparr>
      in if truthy (qparam from) \<or> truthy (qparam to) then
           (let c0 = \<lparr>c_gte = None, c_lte = None\<rparr>;
                c1 = (if valid_bound env from
                      then c0\<lparr>c_gte := new_Date env (qparam from)\<rparr> else c0);
                c2 = (if valid_bound env to
                      then c1\<lparr>c_lte := new_Date env (qparam to)\<rparr> else c1)
            in if c_gte c2 = None \<and> c_lte c2 = None then q else q\<lparr>q_date := Some c2\<rparr>)
         else q)"

definition cursor_limit :: "jstring option \<Rightarrow> int option" where
  "cursor_limit limit =
     (case parseInt (qparam limit) of
        None \<Rightarrow> None
      | Some lim \<Rightarrow> if lim > 0 then Some lim else None)"

definition log_entry :: "env \<Rightarrow> exercise \<Rightarrow> json" where
  "log_entry env e =
     JObject [(''description'', JString (e_description e)),
              (''duration'', JNumber (e_duration e)),
              (''date'', JString (toDateString env (e_date e)))]"

definition get_logs_try ::
    "env \<Rightarrow> store \<Rightarrow> jstring \<Rightarrow> jstring option \<Rightarrow> jstring option \<Rightarrow> jstring option
      \<Rightarrow> (exn + response) \<times> store" where
  "get_logs_try env st ident from to limit =
     (case User_findById env st ident of
        Inl e \<Rightarrow> (Inl e, st)
      | Inr None \<Rightarrow> (Inr unknown_user, st)
      | Inr (Some user) \<Rightarrow>
          (case Exercise_find env st (build_query env (u_id user) from to)
                  (cursor_limit limit) of
             Inl e \<Rightarrow> (Inl e, st)
           | Inr exs \<Rightarrow>
               (let log = map (log_entry env) exs
                in (Inr (ok (JObject [(''username'', JString (u_username user)),
                                      (''count'', JNumber (int (length log))),
                                      (''_id'', JString (u_id user)),
                                      (''log'', JArray log)])), st))))"

definition get_logs ::
    "env \<Rightarrow> store \<Rightarrow> jstring \<Rightarrow> jstring option \<Rightarrow> jstring option \<Rightarrow> jstring option
      \<Rightarrow> response \<times> store" where
  "get_logs env st ident from to limit = catch_next (get_logs_try env st ident from to limit)"


subsection \<open>Derived forms of the responses\<close>

text \<open>
  The record \<open>Exercise.create\<close> is asked to store and the two success bodies, named so
  that the theorems can speak of them.
\<close>

definition created_exercise :: "env \<Rightarrow> user \<Rightarrow> jstring \<Rightarrow> int \<Rightarrow> jsval \<Rightarrow> exercise" where
  "created_exercise env user s n date =
     \<lparr>e_id = fresh_id env, e_userId = u_id user, e_description = trim s,
      e_duration = n, e_date = exercise_date env date\<rparr>"

definition exercise_response :: "env \<Rightarrow> user \<Rightarrow> exercise \<Rightarrow> response" where
  "exercise_response env user ex =
     ok (JObject [(''_id'', JString (u_id user)),
                  (''username'', JString (u_username user)),
                  (''description'', JString (e_description ex)),
                  (''duration'', JNumber (e_duration ex)),
                  (''date'', JString (toDateString env (e_date ex)))])"

definition logs_response :: "env \<Rightarrow> user \<Rightarrow> exercise list \<Rightarrow> response" where
  "logs_response env user exs =
     ok (JObject [(''username'', JString (u_username user)),
                  (''count'', JNumber (int (length (map (log_entry env) exs)))),
                  (''_id'', JString (u_id user)),
                  (''log'', JArray (map (log_entry env) exs))])"

subsection \<open>Notions of the specification\<close>

text \<open>
  The bound a query parameter yields: the parameter is present and parses as a valid date.
  The two bounds a filter carries.
\<close>

definition bound_of :: "env \<Rightarrow> jstring option \<Rightarrow> int option" where
  "bound_of env p = (case p of None \<Rightarrow> None | Some s \<Rightarrow> Date_parse env s)"

definition lower_bound :: "query \<Rightarrow> int option" where
  "lower_bound q = (case q_date q of None \<Rightarrow> None | Some c \<Rightarrow> c_gte c)"

definition upper_bound :: "query \<Rightarrow> int option" where
  "upper_bound q = (case q_date q of None \<Rightarrow> None | Some c \<Rightarrow> c_lte c)"


text \<open>
  The canonical form of a date in a response, \<open><Weekday> <Month> <Day> <Year>\<close>, read off
  the string: a week day's and a month's three letters, the day of the month in two
  digits, and a year of at least four digits, after a minus sign for a year before 0.
\<close>

definition canonical_year :: "jstring \<Rightarrow> bool" where
  "canonical_year y =
     (let ds = (if take 1 y = str ''-'' then drop 1 y else y)
      in 4 \<le> length ds \<and> list_all is_digit ds)"

definition canonical_date :: "jstring \<Rightarrow> bool" where
  "canonical_date s =
     (take 3 s \<in> set (map str [''Sun'', ''Mon'', ''Tue'', ''Wed'', ''Thu'', ''Fri'', ''Sat''])
      \<and> take 1 (drop 3 s) = str '' ''
      \<and> take 3 (drop 4 s) \<in> set (map str [''Jan'', ''Feb'', ''Mar'', ''Apr'', ''May'', ''Jun'',
                                            ''Jul'', ''Aug'', ''Sep'', ''Oct'', ''Nov'', ''Dec''])
      \<and> take 1 (drop 7 s) = str '' ''
      \<and> length (take 2 (drop 8 s)) = 2 \<and> list_all is_digit (take 2 (drop 8 s))
      \<and> 1 \<le> digits_val (take 2 (drop 8 s)) \<and> digits_val (take 2 (drop 8 s)) \<le> 31
      \<and> take 1 (drop 10 s) = str '' ''
      \<and> canonical_year (drop 11 s))"

text \<open>The store with the ids of its exercise records replaced (\<open>g\<close> names the new ids).\<close>

definition relabel_exercises :: "(exercise \<Rightarrow> oid) \<Rightarrow> store \<Rightarrow> store" where
  "relabel_exercises g st = st\<lparr>exercises := map (\<lambda>e. e\<lparr>e_id := g e\<rparr>) (exercises st)\<rparr>"

subsection \<open>A sample environment and store\<close>

text \<open>
  A server in UTC whose runtime reads no date but \<open>YYYY-MM-DD\<close>, and a store with one user
  and three exercises (17, 15 and 16 January 2023, in the order of insertion).
\<close>

definition demo_env :: env where
  "demo_env = \<lparr>now = 1700000000000, tza = (\<lambda>t. 0), legacy_parse = (\<lambda>s. None),
               cast_id = Some, fresh_id = str ''e9'', findById_fails = False,
               find_fails = False, create_fails = False\<rparr>"

definition demo_user :: user where
  "demo_user = \<lparr>u_id = str ''u1'', u_username = str ''fcc_test''\<rparr>"

definition demo_store :: store where
  "demo_store = \<lparr>users = [demo_user],
     exercises =
       [\<lparr>e_id = str ''e1'', e_userId = str ''u1'', e_description = str ''swim'', e_duration = 45,
         e_date = 1673913600000\<rparr>,
        \<lparr>e_id = str ''e2'', e_userId = str ''u1'', e_description = str ''run'', e_duration = 30,
         e_date = 1673740800000\<rparr>,
        \<lparr>e_id = str ''e3'', e_userId = str ''u1'', e_description = str ''row'', e_duration = 20,
         e_date = 1673827200000\<rparr>]\<rparr>"

text \<open>The sample environment on a server five hours behind UTC.\<close>

definition west_env :: env where
  "west_env = demo_env\<lparr>tza := (\<lambda>t. - 18000000)\<rparr>"

text \<open>The sample environment with another id at hand for the next insert.\<close>

definition other_id_env :: env where
  "other_id_env = demo_env\<lparr>fresh_id := str ''e77''\<rparr>"

text \<open>New ids for the sample store's exercises.\<close>

definition demo_relabel :: "exercise \<Rightarrow> oid" where
  "demo_relabel e = str ''x'' @ e_id e"

section \<open>Properties\<close>

subsection \<open>Auxiliary facts\<close>

lemma cu_values:
  "cu CHR ''0'' = 48" "cu CHR ''9'' = 57" "cu CHR ''-'' = 45" "cu CHR ''+'' = 43"
  "cu CHR '' '' = 32"
  by (simp_all add: cu_def)

lemma cu_inject: "cu a = cu b \<longleftrightarrow> a = b"
  by (simp add: cu_def)

lemma str_Nil: "str [] = []"
  and str_Cons: "str (c # cs) = cu c # str cs"
  and str_append: "str (a @ b) = str a @ str b"
  by (simp_all add: str_def)

lemma length_str [simp]: "length (str s) = length s"
  and str_is_Nil [simp]: "str s = [] \<longleftrightarrow> s = []"
  by (simp_all add: str_def)

lemma str_inject [simp]: "str a = str b \<longleftrightarrow> a = b"
  unfolding str_def by (simp add: inj_map_eq_map inj_on_def cu_inject)

lemma trim_start_trim_end: "trim_start (trim_end (trim_start s)) = trim_end (trim_start s)"
proof -
  define a where "a = dropWhile is_ws s"
  define b where "b = rev (dropWhile is_ws (rev a))"
  have ab: "a = b @ rev (takeWhile is_ws (rev a))"
    unfolding b_def by (metis rev_append rev_rev_ident takeWhile_dropWhile_id)
  have "dropWhile is_ws b = b"
  proof (cases b)
    case Nil then show ?thesis by simp
  next
    case (Cons c cs)
    then have "hd a = c" using ab by (metis hd_append2 list.sel(1) list.distinct(1))
    moreover have "a \<noteq> []" using ab Cons by auto
    ultimately have "\<not> is_ws c" unfolding a_def using hd_dropWhile by metis
    then show ?thesis using Cons by simp
  qed
  then show ?thesis by (simp add: trim_start_def trim_end_def a_def b_def)
qed

lemma trim_end_idem: "trim_end (trim_end s) = trim_end s"
  by (simp add: trim_end_def dropWhile_idem)

lemma trim_idem: "trim (trim s) = trim s"
  by (simp add: trim_def trim_start_trim_end trim_end_idem)

lemma catch_next_Inr: "catch_next (Inr r, st) = (r, st)"
  and catch_next_Inl: "catch_next (Inl e, st) = (server_error, st)"
  by (simp_all add: catch_next_def)

lemma status_simps:
  "status (ok b) = 200" "status (bad_request m) = 400" "status server_error = 500"
  "status unknown_user = 400" "status invalid_exercise = 400" "status invalid_username = 400"
  by (simp_all add: ok_def bad_request_def server_error_def unknown_user_def
      invalid_exercise_def invalid_username_def)

lemma User_findById_None:
  assumes "cast_id env ident = Some i" and "\<not> findById_fails env"
    and "\<forall>u \<in> set (users st). u_id u \<noteq> i"
  shows "User_findById env st ident = Inr None"
  using assms by (auto simp: User_findById_def find_None_iff)

lemma trim_Nil: "trim [] = []"
  by (simp add: trim_def trim_start_def trim_end_def)

lemma Exercise_create_trimmed:
  "trim s \<noteq> [] \<Longrightarrow>
   Exercise_create env st (u_id user) (trim s) n (exercise_date env date) =
     (if create_fails env then (Inl MongoError, st)
      else (Inr (created_exercise env user s n date),
            st\<lparr>exercises := exercises st @ [created_exercise env user s n date]\<rparr>))"
  by (simp add: Exercise_create_def created_exercise_def trim_idem Let_def)

lemma post_exercises_string:
  assumes "User_findById env st ident = Inr (Some user)"
  shows "post_exercises env st ident (VStr s) duration date =
     (if trim s = [] then (invalid_exercise, st)
      else case parseInt duration of
             None \<Rightarrow> (invalid_exercise, st)
           | Some n \<Rightarrow>
               if create_fails env then (server_error, st)
               else (exercise_response env user (created_exercise env user s n date),
                     st\<lparr>exercises := exercises st @ [created_exercise env user s n date]\<rparr>))"
proof (cases "trim s = []")
  case True
  then show ?thesis using assms
    by (simp add: post_exercises_def post_exercises_try_def catch_next_Inr)
next
  case False
  then have "s \<noteq> []" using trim_Nil by auto
  with False show ?thesis using assms
    by (simp add: post_exercises_def post_exercises_try_def catch_next_Inr catch_next_Inl
        Exercise_create_trimmed exercise_response_def split: option.split)
qed

lemma post_exercises_not_string:
  assumes "User_findById env st ident = Inr (Some user)" and "\<forall>s. description \<noteq> VStr s"
  shows "post_exercises env st ident description duration date =
     (if truthy description then (server_error, st) else (invalid_exercise, st))"
  using assms
  by (cases description)
     (simp_all add: post_exercises_def post_exercises_try_def catch_next_Inr catch_next_Inl)

lemma post_exercises_no_user:
  "User_findById env st ident = Inr None \<Longrightarrow>
   post_exercises env st ident description duration date = (unknown_user, st)"
  by (simp add: post_exercises_def post_exercises_try_def catch_next_Inr)

lemma post_exercises_lookup_fails:
  "User_findById env st ident = Inl e \<Longrightarrow>
   post_exercises env st ident description duration date = (server_error, st)"
  by (simp add: post_exercises_def post_exercises_try_def catch_next_Inl)

text \<open>What a successful \<open>POST /api/users/:_id/exercises\<close> has done.\<close>

lemma post_exercises_ok:
  assumes "post_exercises env st ident description duration date = (res, st')"
    and "status res = 200"
  shows "\<exists>user s n.
           User_findById env st ident = Inr (Some user) \<and> description = VStr s \<and>
           trim s \<noteq> [] \<and> parseInt duration = Some n \<and> \<not> create_fails env \<and>
           st' = st\<lparr>exercises := exercises st @ [created_exercise env user s n date]\<rparr> \<and>
           res = exercise_response env user (created_exercise env user s n date)"
proof (cases "User_findById env st ident")
  case (Inl e)
  with assms show ?thesis by (auto simp: post_exercises_lookup_fails status_simps)
next
  case (Inr found)
  show ?thesis
  proof (cases found)
    case None
    with Inr assms show ?thesis by (auto simp: post_exercises_no_user status_simps)
  next
    case (Some user)
    with Inr have u: "User_findById env st ident = Inr (Some user)" by simp
    show ?thesis
    proof (cases "\<exists>s. description = VStr s")
      case True
      then obtain s where "description = VStr s" by blast
      with assms u show ?thesis
        by (auto simp: post_exercises_string status_simps split: if_splits option.splits)
    next
      case False
      with assms u show ?thesis
        by (auto simp: post_exercises_not_string status_simps split: if_splits)
    qed
  qed
qed

lemma new_Date_qparam: "new_Date env (qparam p) = bound_of env p"
  by (cases p) (simp_all add: qparam_def bound_of_def)

lemma valid_bound_iff: "valid_bound env p \<longleftrightarrow> bound_of env p \<noteq> None"
  by (cases p) (auto simp: valid_bound_def qparam_def bound_of_def Date_parse_def)

lemma build_query_eq:
  "build_query env uid from to =
     \<lparr>q_userId = uid,
      q_date = (if bound_of env from = None \<and> bound_of env to = None then None
                else Some \<lparr>c_gte = bound_of env from, c_lte = bound_of env to\<rparr>)\<rparr>"
proof (cases "truthy (qparam from) \<or> truthy (qparam to)")
  case True
  then show ?thesis
    by (auto simp: build_query_def Let_def valid_bound_iff new_Date_qparam)
next
  case False
  then have "\<not> valid_bound env from" and "\<not> valid_bound env to"
    by (simp_all add: valid_bound_def)
  then have "bound_of env from = None" and "bound_of env to = None"
    by (simp_all add: valid_bound_iff)
  with False show ?thesis by (simp add: build_query_def)
qed

lemma build_query_no_empty_cond:
  "q_date (build_query env uid from to) \<noteq> Some \<lparr>c_gte = None, c_lte = None\<rparr>"
  by (auto simp: build_query_eq)

lemma get_logs_found:
  assumes "User_findById env st ident = Inr (Some user)"
  shows "get_logs env st ident from to limit =
     (if find_fails env then (server_error, st)
      else (logs_response env user
              (let found = sort_key e_date
                             (filter (matches (build_query env (u_id user) from to))
                                (exercises st))
               in case cursor_limit limit of
                    None \<Rightarrow> found
                  | Some n \<Rightarrow> take (nat n) found), st))"
  using assms build_query_no_empty_cond [of env "u_id user" "from" to]
  by (simp add: get_logs_def get_logs_try_def Exercise_find_def catch_next_Inl catch_next_Inr
      logs_response_def Let_def)

lemma get_logs_no_user:
  "User_findById env st ident = Inr None \<Longrightarrow>
   get_logs env st ident from to limit = (unknown_user, st)"
  by (simp add: get_logs_def get_logs_try_def catch_next_Inr)

lemma get_logs_lookup_fails:
  "User_findById env st ident = Inl e \<Longrightarrow>
   get_logs env st ident from to limit = (server_error, st)"
  by (simp add: get_logs_def get_logs_try_def catch_next_Inl)

lemma get_logs_ok:
  assumes "get_logs env st ident from to limit = (res, st')" and "status res = 200"
  shows "\<exists>user. User_findById env st ident = Inr (Some user) \<and> \<not> find_fails env"
proof (cases "User_findById env st ident")
  case (Inl e)
  with assms show ?thesis by (auto simp: get_logs_lookup_fails status_simps)
next
  case (Inr found)
  show ?thesis
  proof (cases found)
    case None
    with Inr assms show ?thesis by (auto simp: get_logs_no_user status_simps)
  next
    case (Some user)
    with Inr assms show ?thesis
      by (auto simp: get_logs_found status_simps split: if_splits)
  qed
qed

lemma demo_lookup: "User_findById demo_env demo_store (str ''u1'') = Inr (Some demo_user)"
  by (simp add: User_findById_def demo_env_def demo_store_def demo_user_def)

lemma field_exercise_response:
  "field ''_id'' (body (exercise_response env user ex)) = Some (JString (u_id user))"
  "field ''username'' (body (exercise_response env user ex)) = Some (JString (u_username user))"
  "field ''description'' (body (exercise_response env user ex)) = Some (JString (e_description ex))"
  "field ''duration'' (body (exercise_response env user ex)) = Some (JNumber (e_duration ex))"
  "field ''date'' (body (exercise_response env user ex))
     = Some (JString (toDateString env (e_date ex)))"
  by (simp_all add: exercise_response_def ok_def)

lemma field_logs_response:
  "field ''log'' (body (logs_response env user exs)) = Some (JArray (map (log_entry env) exs))"
  "field ''count'' (body (logs_response env user exs)) = Some (JNumber (int (length exs)))"
  "field ''_id'' (body (logs_response env user exs)) = Some (JString (u_id user))"
  "field ''username'' (body (logs_response env user exs)) = Some (JString (u_username user))"
  by (simp_all add: logs_response_def ok_def)

lemma matches_build_query:
  "matches (build_query env uid from to) e \<longleftrightarrow>
     e_userId e = uid \<and>
     (case bound_of env from of None \<Rightarrow> True | Some lo \<Rightarrow> lo \<le> e_date e) \<and>
     (case bound_of env to of None \<Rightarrow> True | Some hi \<Rightarrow> e_date e \<le> hi)"
  by (auto simp: matches_def build_query_eq split: option.splits)

lemma cursor_limit_one: "cursor_limit (Some (str ''1'')) = Some 1"
  by code_simp

lemma parseInt_absent: "parseInt (qparam None) = None"
  by code_simp

lemma div_minus_multiple:
  fixes a :: int
  assumes "k \<noteq> 0"
  shows "(a - c * k) div k = a div k - c"
  using div_mult_self1 [of k a "- c"] assms by simp

lemma DayFromYear_next: "DayFromYear (Y + 1) = march_days Y + 306 - 719468"
proof -
  have "(Y + 1 - 1969) div 4 = Y div 4 - 492"
    using div_minus_multiple [of 4 Y 492] by simp
  moreover have "(Y + 1 - 1901) div 100 = Y div 100 - 19"
    using div_minus_multiple [of 100 Y 19] by simp
  moreover have "(Y + 1 - 1601) div 400 = Y div 400 - 4"
    using div_minus_multiple [of 400 Y 4] by simp
  ultimately show ?thesis by (simp add: DayFromYear_def march_days_def)
qed

lemma div_step:
  fixes Y :: int
  assumes "0 < k"
  shows "(Y + 1) div k = Y div k + (if (Y + 1) mod k = 0 then 1 else 0)"
proof -
  define q where "q = Y div k"
  define r where "r = Y mod k"
  have Y: "Y = k * q + r" and r: "0 \<le> r" "r < k"
    using assms by (simp_all add: q_def r_def)
  show ?thesis
  proof (cases "r + 1 = k")
    case True
    then have "Y + 1 = k * (q + 1)" using Y by (simp add: algebra_simps)
    then show ?thesis using assms by (simp add: q_def [symmetric])
  next
    case False
    then have e: "Y + 1 = (r + 1) + q * k" and "0 \<le> r + 1" and lt: "r + 1 < k"
      using Y r by auto
    have "(Y + 1) div k = q"
      unfolding e using r lt assms by (simp add: div_pos_pos_trivial)
    moreover have "(Y + 1) mod k = r + 1"
      unfolding e using r lt assms by (simp add: mod_pos_pos_trivial)
    ultimately show ?thesis using r by (simp add: q_def [symmetric])
  qed
qed

lemma leap_divisibility:
  fixes y :: int
  shows "y mod 400 = 0 \<Longrightarrow> y mod 100 = 0" and "y mod 100 = 0 \<Longrightarrow> y mod 4 = 0"
proof -
  have a: "(100::int) dvd 400" and b: "(4::int) dvd 100" by simp_all
  show "y mod 400 = 0 \<Longrightarrow> y mod 100 = 0"
    using a by (meson dvd_trans mod_eq_0_iff_dvd)
  show "y mod 100 = 0 \<Longrightarrow> y mod 4 = 0"
    using b by (meson dvd_trans mod_eq_0_iff_dvd)
qed

lemma leap_indicator:
  fixes y :: int
  shows "(if y mod 4 = 0 then 1 else 0) - (if y mod 100 = 0 then 1 else 0)
           + (if y mod 400 = 0 then 1 else 0) = (if InLeapYear y then 1 else (0::int))"
proof -
  define A where "A \<longleftrightarrow> y mod 4 = 0"
  define B where "B \<longleftrightarrow> y mod 100 = 0"
  define C where "C \<longleftrightarrow> y mod 400 = 0"
  have cb: "C \<Longrightarrow> B"
    unfolding B_def C_def by (rule leap_divisibility(1))
  have ba: "B \<Longrightarrow> A"
    unfolding A_def B_def by (rule leap_divisibility(2))
  have "(if A then 1 else 0) - (if B then 1 else 0) + (if C then 1 else 0)
          = (if A \<and> (\<not> B \<or> C) then 1 else (0::int))"
    using cb ba by (cases A; cases B; cases C) simp_all
  then show ?thesis unfolding A_def B_def C_def InLeapYear_def .
qed

lemma march_days_step:
  "march_days (Y + 1) = march_days Y + 365 + (if InLeapYear (Y + 1) then 1 else 0)"
proof -
  define c4 :: int where "c4 = (if (Y + 1) mod 4 = 0 then 1 else 0)"
  define c100 :: int where "c100 = (if (Y + 1) mod 100 = 0 then 1 else 0)"
  define c400 :: int where "c400 = (if (Y + 1) mod 400 = 0 then 1 else 0)"
  have d4: "(Y + 1) div 4 = Y div 4 + c4"
    and d100: "(Y + 1) div 100 = Y div 100 + c100"
    and d400: "(Y + 1) div 400 = Y div 400 + c400"
    unfolding c4_def c100_def c400_def by (rule div_step, simp)+
  have "c4 - c100 + c400 = (if InLeapYear (Y + 1) then 1 else 0)"
    unfolding c4_def c100_def c400_def by (rule leap_indicator)
  moreover have "march_days (Y + 1) = march_days Y + 365 + (c4 - c100 + c400)"
    unfolding march_days_def d4 d100 d400 by (simp add: algebra_simps)
  ultimately show ?thesis by simp
qed

lemma DayFromYear_march: "DayFromYear Y + 59 + (if InLeapYear Y then 1 else 0) = march_days Y -
    719468"
proof -
  have "DayFromYear (Y - 1 + 1) = march_days (Y - 1) + 306 - 719468" by (rule DayFromYear_next)
  moreover have "march_days (Y - 1 + 1)
                   = march_days (Y - 1) + 365 + (if InLeapYear (Y - 1 + 1) then 1 else 0)"
    by (rule march_days_step)
  ultimately show ?thesis by simp
qed

lemma cascade_bounds:
  fixes r400 :: int
  assumes "0 \<le> r400" and "r400 < 146097"
  defines "n100 \<equiv> min 3 (r400 div 36524)"
  defines "r100 \<equiv> r400 - n100 * 36524"
  defines "n4 \<equiv> r100 div 1461"
  defines "r4 \<equiv> r100 mod 1461"
  defines "n1 \<equiv> min 3 (r4 div 365)"
  defines "doy \<equiv> r4 - n1 * 365"
  shows "0 \<le> n100 \<and> n100 \<le> 3 \<and> 0 \<le> n4 \<and> n4 \<le> 24 \<and> 0 \<le> n1 \<and> n1 \<le> 3
         \<and> 0 \<le> doy \<and> doy \<le> 365
         \<and> r400 = 36524 * n100 + 1461 * n4 + 365 * n1 + doy
         \<and> (doy = 365 \<longrightarrow> n1 = 3 \<and> (n4 \<le> 23 \<or> n100 = 3))"
proof -
  define q where "q = r400 div 36524"
  have q: "r400 = 36524 * q + r400 mod 36524" "0 \<le> r400 mod 36524" "r400 mod 36524 < 36524"
    by (simp_all add: q_def)
  have n100: "0 \<le> n100" "n100 \<le> 3" "0 \<le> r100" "r100 \<le> 36524" "n100 < 3 \<longrightarrow> r100 \<le> 36523"
    using q assms(1,2) unfolding n100_def r100_def q_def [symmetric] min_def by auto
  have r100: "r100 = 1461 * n4 + r4" "0 \<le> r4" "r4 < 1461"
    by (simp_all add: n4_def r4_def)
  have n4: "0 \<le> n4" "n4 \<le> 24" "n4 = 24 \<and> n100 < 3 \<longrightarrow> r4 \<le> 1459"
    using r100 n100 by auto
  define p where "p = r4 div 365"
  have p: "r4 = 365 * p + r4 mod 365" "0 \<le> r4 mod 365" "r4 mod 365 < 365"
    by (simp_all add: p_def)
  have n1: "0 \<le> n1" "n1 \<le> 3" "0 \<le> doy" "doy \<le> 365" "r4 = 365 * n1 + doy"
    "doy = 365 \<longrightarrow> n1 = 3 \<and> r4 = 1460"
    using p r100(2,3) unfolding n1_def doy_def p_def [symmetric] min_def by auto
  have "r400 = 36524 * n100 + 1461 * n4 + 365 * n1 + doy"
    using r100(1) n1(5) by (simp add: r100_def)
  moreover have "doy = 365 \<longrightarrow> n1 = 3 \<and> (n4 \<le> 23 \<or> n100 = 3)"
    using n1(6) n4 n100 by auto
  ultimately show ?thesis using n100 n4 n1 by simp
qed

lemma march_days_cascade:
  fixes a b c e :: int
  assumes "0 \<le> b" "b \<le> 3" "0 \<le> c" "c \<le> 24" "0 \<le> e" "e \<le> 3"
  shows "march_days (400 * a + 100 * b + 4 * c + e)
           = 146097 * a + 36524 * b + 1461 * c + 365 * e"
proof -
  let ?Y = "400 * a + 100 * b + 4 * c + e"
  have "?Y div 400 = a"
    using assms by (intro int_div_pos_eq [where r = "100 * b + 4 * c + e"]) auto
  moreover have "?Y div 100 = 4 * a + b"
    using assms by (intro int_div_pos_eq [where r = "4 * c + e"]) auto
  moreover have "?Y div 4 = 100 * a + 25 * b + c"
    using assms by (intro int_div_pos_eq [where r = e]) auto
  ultimately show ?thesis by (simp add: march_days_def)
qed

lemma cascade_leap:
  fixes a b c :: int
  assumes "0 \<le> b" "b \<le> 3" "0 \<le> c" "c \<le> 24" "c \<le> 23 \<or> b = 3"
  shows "InLeapYear (400 * a + 100 * b + 4 * c + 3 + 1)"
proof -
  let ?y = "400 * a + 100 * b + 4 * c + 3 + 1"
  have 4: "?y mod 4 = 0"
  proof -
    have "?y = 4 * (100 * a + 25 * b + c + 1)" by simp
    then show ?thesis by (metis mod_mult_self1_is_0)
  qed
  show ?thesis
  proof (cases "c \<le> 23")
    case True
    have "?y mod 100 = 4 * c + 4"
      using assms True by (intro int_mod_pos_eq [where q = "4 * a + b"]) auto
    then have "?y mod 100 \<noteq> 0" using assms by auto
    with 4 show ?thesis by (simp add: InLeapYear_def)
  next
    case False
    with assms have "c = 24" "b = 3" by auto
    then have "?y = 400 * (a + 1)" by simp
    then have "?y mod 400 = 0" by (metis mod_mult_self1_is_0)
    with 4 show ?thesis by (simp add: InLeapYear_def)
  qed
qed

lemma upto_values:
  "[1..(0::int)] = []" "[1..(1::int)] = [1]" "[1..(2::int)] = [1, 2]" "[1..(3::int)] = [1, 2, 3]"
  "[1..(4::int)] = [1, 2, 3, 4]" "[1..(5::int)] = [1, 2, 3, 4, 5]"
  "[1..(6::int)] = [1, 2, 3, 4, 5, 6]" "[1..(7::int)] = [1, 2, 3, 4, 5, 6, 7]"
  "[1..(8::int)] = [1, 2, 3, 4, 5, 6, 7, 8]" "[1..(9::int)] = [1, 2, 3, 4, 5, 6, 7, 8, 9]"
  "[1..(10::int)] = [1, 2, 3, 4, 5, 6, 7, 8, 9, 10]"
  "[1..(11::int)] = [1, 2, 3, 4, 5, 6, 7, 8, 9, 10, 11]"
  by code_simp+

lemma DaysBeforeMonth_values:
  "DaysBeforeMonth y 1 = 0" "DaysBeforeMonth y 2 = 31"
  "DaysBeforeMonth y 3 = 59 + (if InLeapYear y then 1 else 0)"
  "DaysBeforeMonth y 4 = 90 + (if InLeapYear y then 1 else 0)"
  "DaysBeforeMonth y 5 = 120 + (if InLeapYear y then 1 else 0)"
  "DaysBeforeMonth y 6 = 151 + (if InLeapYear y then 1 else 0)"
  "DaysBeforeMonth y 7 = 181 + (if InLeapYear y then 1 else 0)"
  "DaysBeforeMonth y 8 = 212 + (if InLeapYear y then 1 else 0)"
  "DaysBeforeMonth y 9 = 243 + (if InLeapYear y then 1 else 0)"
  "DaysBeforeMonth y 10 = 273 + (if InLeapYear y then 1 else 0)"
  "DaysBeforeMonth y 11 = 304 + (if InLeapYear y then 1 else 0)"
  "DaysBeforeMonth y 12 = 334 + (if InLeapYear y then 1 else 0)"
  by (simp_all add: DaysBeforeMonth_def upto_values DaysInMonth_def)

lemma month_day_correct:
  fixes doy Y :: int
  assumes "0 \<le> doy" and "doy \<le> 365" and leap: "doy = 365 \<longrightarrow> InLeapYear (Y + 1)"
  defines "mp \<equiv> (5 * doy + 2) div 153"
  defines "d \<equiv> doy - (153 * mp + 2) div 5 + 1"
  defines "m \<equiv> (if mp < 10 then mp + 3 else mp - 9)"
  defines "y \<equiv> Y + (if m \<le> 2 then 1 else 0)"
  shows "1 \<le> m \<and> m \<le> 12 \<and> 1 \<le> d \<and> d \<le> DaysInMonth y m
         \<and> MakeDay y m d = march_days Y + doy - 719468"
proof -
  have a: "153 * mp \<le> 5 * doy + 2" and b: "5 * doy + 2 < 153 * mp + 153"
    unfolding mp_def by (simp_all add: div_mult_mod_eq [symmetric] del: div_mult_mod_eq)
  have "0 \<le> mp" using b assms(1) by linarith
  moreover have "mp \<le> 11" using a assms(2) by linarith
  ultimately have mp: "mp = 0 \<or> mp = 1 \<or> mp = 2 \<or> mp = 3 \<or> mp = 4 \<or> mp = 5 \<or> mp = 6
                   \<or> mp = 7 \<or> mp = 8 \<or> mp = 9 \<or> mp = 10 \<or> mp = 11"
    by arith
  have g1: "DayFromYear Y = march_days Y - 719468 - 59 - (if InLeapYear Y then 1 else 0)"
    using DayFromYear_march [of Y] by simp
  have g2: "DayFromYear (Y + 1) = march_days Y + 306 - 719468" by (rule DayFromYear_next)
  have feb: "doy - 336 \<le> (if InLeapYear (Y + 1) then 29 else 28)"
    using assms(2) leap by auto
  from mp show ?thesis
  proof (elim disjE)
    assume "mp = 0"
    then show ?thesis
      using a b g1
      by (simp add: m_def y_def d_def MakeDay_def DaysBeforeMonth_values DaysInMonth_def)
  next
    assume "mp = 1"
    then show ?thesis
      using a b g1
      by (simp add: m_def y_def d_def MakeDay_def DaysBeforeMonth_values DaysInMonth_def)
  next
    assume "mp = 2"
    then show ?thesis
      using a b g1
      by (simp add: m_def y_def d_def MakeDay_def DaysBeforeMonth_values DaysInMonth_def)
  next
    assume "mp = 3"
    then show ?thesis
      using a b g1
      by (simp add: m_def y_def d_def MakeDay_def DaysBeforeMonth_values DaysInMonth_def)
  next
    assume "mp = 4"
    then show ?thesis
      using a b g1
      by (simp add: m_def y_def d_def MakeDay_def DaysBeforeMonth_values DaysInMonth_def)
  next
    assume "mp = 5"
    then show ?thesis
      using a b g1
      by (simp add: m_def y_def d_def MakeDay_def DaysBeforeMonth_values DaysInMonth_def)
  next
    assume "mp = 6"
    then show ?thesis
      using a b g1
      by (simp add: m_def y_def d_def MakeDay_def DaysBeforeMonth_values DaysInMonth_def)
  next
    assume "mp = 7"
    then show ?thesis
      using a b g1
      by (simp add: m_def y_def d_def MakeDay_def DaysBeforeMonth_values DaysInMonth_def)
  next
    assume "mp = 8"
    then show ?thesis
      using a b g1
      by (simp add: m_def y_def d_def MakeDay_def DaysBeforeMonth_values DaysInMonth_def)
  next
    assume "mp = 9"
    then show ?thesis
      using a b g1
      by (simp add: m_def y_def d_def MakeDay_def DaysBeforeMonth_values DaysInMonth_def)
  next
    assume "mp = 10"
    then show ?thesis
      using a b g2 feb
      by (simp add: m_def y_def d_def MakeDay_def DaysBeforeMonth_values DaysInMonth_def)
  next
    assume "mp = 11"
    then show ?thesis
      using a b g2 feb
      by (simp add: m_def y_def d_def MakeDay_def DaysBeforeMonth_values DaysInMonth_def)
  qed
qed

text \<open>
  The calendar date of a day number is a date of the calendar, and its day number by
  ECMAScript's \<open>MakeDay\<close> is the day number it was made from.
\<close>

lemma civil_from_day_correct:
  assumes "civil_from_day day = (y, m, d)"
  shows "1 \<le> m \<and> m \<le> 12 \<and> 1 \<le> d \<and> d \<le> DaysInMonth y m \<and> MakeDay y m d = day"
proof -
  define z where "z = day + 719468"
  define n400 where "n400 = z div 146097"
  define r400 where "r400 = z mod 146097"
  define n100 where "n100 = min 3 (r400 div 36524)"
  define r100 where "r100 = r400 - n100 * 36524"
  define n4 where "n4 = r100 div 1461"
  define r4 where "r4 = r100 mod 1461"
  define n1 where "n1 = min 3 (r4 div 365)"
  define doy where "doy = r4 - n1 * 365"
  define Y where "Y = 400 * n400 + 100 * n100 + 4 * n4 + n1"
  define mp where "mp = (5 * doy + 2) div 153"
  have r: "0 \<le> r400" "r400 < 146097" by (simp_all add: r400_def)
  have z: "z = 146097 * n400 + r400" by (simp add: n400_def r400_def)
  note cb = cascade_bounds [OF r, folded n100_def, folded r100_def, folded n4_def r4_def,
                            folded n1_def, folded doy_def]
  from cb have c: "0 \<le> n100" "n100 \<le> 3" "0 \<le> n4" "n4 \<le> 24" "0 \<le> n1" "n1 \<le> 3"
    "0 \<le> doy" "doy \<le> 365"
    "r400 = 36524 * n100 + 1461 * n4 + 365 * n1 + doy"
    "doy = 365 \<longrightarrow> n1 = 3 \<and> (n4 \<le> 23 \<or> n100 = 3)"
    by blast+
  have "march_days Y = 146097 * n400 + 36524 * n100 + 1461 * n4 + 365 * n1"
    unfolding Y_def using c(1-6) by (rule march_days_cascade)
  with z c(9) have "march_days Y + doy = z" by linarith
  then have day: "march_days Y + doy - 719468 = day" unfolding z_def by simp
  have leap: "doy = 365 \<longrightarrow> InLeapYear (Y + 1)"
  proof
    assume "doy = 365"
    with c(10) have "n1 = 3" "n4 \<le> 23 \<or> n100 = 3" by simp_all
    with cascade_leap [OF c(1-4), of n400] show "InLeapYear (Y + 1)" by (simp add: Y_def)
  qed
  have "civil_from_day day =
          (Y + (if (if mp < 10 then mp + 3 else mp - 9) \<le> 2 then 1 else 0),
           if mp < 10 then mp + 3 else mp - 9,
           doy - (153 * mp + 2) div 5 + 1)"
    unfolding civil_from_day_def Let_def z_def n400_def r400_def n100_def r100_def n4_def r4_def
      n1_def doy_def Y_def mp_def ..
  with assms have y: "y = Y + (if (if mp < 10 then mp + 3 else mp - 9) \<le> 2 then 1 else 0)"
    and m: "m = (if mp < 10 then mp + 3 else mp - 9)"
    and d: "d = doy - (153 * mp + 2) div 5 + 1"
    by auto
  from month_day_correct [OF c(7,8) leap]
  have "1 \<le> m \<and> m \<le> 12 \<and> 1 \<le> d \<and> d \<le> DaysInMonth y m
         \<and> MakeDay y m d = march_days Y + doy - 719468"
    unfolding y m d mp_def .
  with day show ?thesis by (simp only:)
qed

lemma civil_from_day_range:
  assumes "civil_from_day day = (y, m, d)"
  shows "1 \<le> m \<and> m \<le> 12 \<and> 1 \<le> d \<and> d \<le> 31"
proof -
  have "DaysInMonth y m \<le> 31" by (simp add: DaysInMonth_def)
  with civil_from_day_correct [OF assms] show ?thesis by linarith
qed

lemma WeekDay_range: "0 \<le> WeekDay day \<and> WeekDay day < 7"
  by (simp add: WeekDay_def)

lemma digit_char_digit:
  assumes "0 \<le> k" and "k \<le> 9"
  shows "is_digit (digit_char k) \<and> digit_val (digit_char k) = k \<and> digit_char k \<noteq> cu CHR ''-''"
  using assms by (simp add: digit_char_def is_digit_def digit_val_def cu_values)

lemma nat_digits_digits: "list_all is_digit (nat_digits n) \<and> nat_digits n \<noteq> []"
proof (induction n rule: nat_digits.induct)
  case (1 n)
  show ?case
  proof (cases "n < 10")
    case True
    then have "is_digit (digit_char (int n))" using digit_char_digit [of "int n"] by simp
    with True show ?thesis by (simp add: nat_digits.simps [of n])
  next
    case False
    have "is_digit (digit_char (int (n mod 10)))"
      using digit_char_digit [of "int (n mod 10)"] by simp
    with False 1 show ?thesis by (simp add: nat_digits.simps [of n])
  qed
qed

lemma is_digit_not_minus: "is_digit c \<Longrightarrow> c \<noteq> cu CHR ''-''"
  by (auto simp: is_digit_def cu_values)

lemma canonical_year_string: "canonical_year (year_string y)"
proof -
  define ds where "ds = nat_digits (nat \<bar>y\<bar>)"
  define zs where "zs = replicate (4 - length ds) (cu CHR ''0'') @ ds"
  have ds: "list_all is_digit ds" "ds \<noteq> []"
    using nat_digits_digits by (simp_all add: ds_def)
  have z0: "is_digit (cu CHR ''0'')" by (simp add: is_digit_def cu_values)
  then have zs: "list_all is_digit zs" "4 \<le> length zs" "zs \<noteq> []"
    using ds by (auto simp: zs_def list_all_iff)
  then have "is_digit (hd zs)" by (cases zs) simp_all
  then have hd: "take 1 zs \<noteq> str ''-''"
    using zs(3) is_digit_not_minus by (cases zs) (auto simp: str_Cons str_Nil)
  show ?thesis
  proof (cases "y < 0")
    case True
    then have "year_string y = cu CHR ''-'' # zs"
      by (simp add: year_string_def ds_def zs_def Let_def str_Cons str_Nil)
    then show ?thesis using zs by (simp add: canonical_year_def str_Cons str_Nil)
  next
    case False
    then have "year_string y = zs"
      by (simp add: year_string_def ds_def zs_def Let_def str_Nil)
    then show ?thesis using zs hd by (simp add: canonical_year_def)
  qed
qed

lemma pad2_digits:
  assumes "1 \<le> d" and "d \<le> 31"
  shows "length (pad2 d) = 2 \<and> list_all is_digit (pad2 d) \<and> digits_val (pad2 d) = d"
proof -
  have a: "0 \<le> d div 10" "d div 10 \<le> 9" and b: "0 \<le> d mod 10" "d mod 10 \<le> 9"
    using assms by auto
  have "digits_val (pad2 d) = 10 * (d div 10) + d mod 10"
    using digit_char_digit [OF a] digit_char_digit [OF b]
    by (simp add: pad2_def digits_val_def)
  then show ?thesis
    using digit_char_digit [OF a] digit_char_digit [OF b] by (simp add: pad2_def)
qed

lemma weekday_name:
  assumes "0 \<le> k" and "k < 7"
  shows "weekday_names ! nat k \<in> set weekday_names"
  using assms by (intro nth_mem) (simp add: weekday_names_def)

lemma month_name:
  assumes "1 \<le> m" and "m \<le> 12"
  shows "month_names ! nat (m - 1) \<in> set month_names"
  using assms by (intro nth_mem) (simp add: month_names_def)

lemma canonical_shape:
  assumes w: "w \<in> set weekday_names"
    and m: "m \<in> set month_names"
    and d: "length dd = 2" "list_all is_digit dd" "1 \<le> digits_val dd" "digits_val dd \<le> 31"
    and y: "canonical_year ys"
  shows "canonical_date (w @ str '' '' @ m @ str '' '' @ dd @ str '' '' @ ys)"
proof -
  have lw: "length w = 3" using w by (auto simp: weekday_names_def length_str)
  have lm: "length m = 3" using m by (auto simp: month_names_def length_str)
  have sp: "length (str '' '') = 1" by (simp add: length_str)
  show ?thesis
    unfolding canonical_date_def weekday_names_def [symmetric] month_names_def [symmetric]
    using w m d y lw lm sp by simp
qed

lemma toDateString_canonical: "canonical_date (toDateString env t)"
proof -
  define day where "day = (t + tza env t) div msPerDay"
  obtain y m d where c: "civil_from_day day = (y, m, d)" by (cases "civil_from_day day")
  have s: "toDateString env t =
             weekday_names ! nat (WeekDay day) @ str '' '' @ month_names ! nat (m - 1) @ str '' ''
               @ pad2 d @ str '' '' @ year_string y"
    using c by (simp add: toDateString_def day_def Let_def)
  from civil_from_day_range [OF c] have r: "1 \<le> m" "m \<le> 12" "1 \<le> d" "d \<le> 31" by simp_all
  show ?thesis
    unfolding s
    using weekday_name [of "WeekDay day"] WeekDay_range [of day] month_name [OF r(1,2)]
      pad2_digits [OF r(3,4)] canonical_year_string [of y] r(3,4)
    by (intro canonical_shape) simp_all
qed

lemma field_log_entry:
  "field ''date'' (log_entry env e) = Some (JString (toDateString env (e_date e)))"
  by (simp add: log_entry_def)

lemma iso_2023_01_15: "Date_parse env (str ''2023-01-15'') = Some 1673740800000"
proof -
  have "iso_date_only (str ''2023-01-15'') = Some 1673740800000" by code_simp
  then show ?thesis by (simp add: Date_parse_def)
qed

lemma toDateString_2023_01_15:
  assumes "0 \<le> tza env 1673740800000" and "tza env 1673740800000 < msPerDay"
  shows "toDateString env 1673740800000 = str ''Sun Jan 15 2023''"
proof -
  have day: "(1673740800000 + tza env 1673740800000) div msPerDay = 19372"
    using assms unfolding msPerDay_def by arith
  have c: "civil_from_day 19372 = (2023, 1, 15)" by code_simp
  have w: "weekday_names ! nat (WeekDay 19372) = str ''Sun''" by code_simp
  have m: "month_names ! 0 = str ''Jan''" by (simp add: month_names_def)
  have d: "pad2 15 = str ''15''" by code_simp
  have y: "year_string 2023 = str ''2023''" by code_simp
  show ?thesis by (simp add: toDateString_def day c w m d y str_append [symmetric])
qed

lemma exercise_date_invalid: "new_Date env date = None \<Longrightarrow> exercise_date env date = now env"
  by (simp add: exercise_date_def)

lemma exercise_date_falsy: "\<not> truthy date \<Longrightarrow> exercise_date env date = now env"
  by (simp add: exercise_date_def split: option.split)

lemma exercise_date_parsed:
  assumes "Date_parse env s = Some t"
  shows "exercise_date env (VStr s) = t"
proof -
  have "s \<noteq> []" using assms by (auto simp: Date_parse_def)
  with assms show ?thesis by (simp add: exercise_date_def)
qed

lemma post_exercises_date_only:
  assumes "exercise_date env d1 = exercise_date env d2"
  shows "post_exercises env st ident description duration d1
           = post_exercises env st ident description duration d2"
  unfolding post_exercises_def post_exercises_try_def assms by (rule refl)

lemma post_users_store:
  "snd (post_users env st username) = st
   \<or> (status (fst (post_users env st username)) = 200
       \<and> snd (post_users env st username)
           = st\<lparr>users := users st @ [\<lparr>u_id = fresh_id env,
                                         u_username = trim (trim (ToString username))\<rparr>]\<rparr>)"
proof (cases username)
  case (VStr s)
  then show ?thesis
    by (simp add: post_users_def post_users_try_def User_create_def Let_def catch_next_Inr
        catch_next_Inl status_simps)
qed (simp_all add: post_users_def post_users_try_def catch_next_Inr catch_next_Inl)

lemma post_exercises_store:
  "snd (post_exercises env st ident description duration date) = st
   \<or> (status (fst (post_exercises env st ident description duration date)) = 200
       \<and> (\<exists>ex. snd (post_exercises env st ident description duration date)
                 = st\<lparr>exercises := exercises st @ [ex]\<rparr>))"
proof (cases "User_findById env st ident")
  case (Inl e)
  then show ?thesis by (simp add: post_exercises_lookup_fails)
next
  case (Inr found)
  show ?thesis
  proof (cases found)
    case None
    with Inr show ?thesis by (simp add: post_exercises_no_user)
  next
    case (Some user)
    with Inr have u: "User_findById env st ident = Inr (Some user)" by simp
    show ?thesis
    proof (cases "\<exists>s. description = VStr s")
      case True
      then obtain s where "description = VStr s" by blast
      then show ?thesis
        by (auto simp: post_exercises_string [OF u] exercise_response_def status_simps
            split: option.split)
    next
      case False
      then show ?thesis using u by (simp add: post_exercises_not_string)
    qed
  qed
qed

lemma get_users_store: "snd (get_users env st) = st"
  by (simp add: get_users_def get_users_try_def User_find_all_def catch_next_Inr catch_next_Inl)

lemma get_logs_store: "snd (get_logs env st ident from to limit) = st"
  by (simp add: get_logs_def get_logs_try_def catch_next_def
      split: sum.split option.split)

lemma insort_key_map_same:
  assumes "\<And>x. k (f x) = k x"
  shows "insort_key k (f x) (map f ys) = map f (insort_key k x ys)"
  by (induction ys) (simp_all add: assms)

lemma sort_key_map_same:
  assumes "\<And>x. k (f x) = k x"
  shows "sort_key k (map f xs) = map f (sort_key k xs)"
  using assms by (induction xs) (simp_all add: insort_key_map_same)

lemma Exercise_find_relabel:
  "Exercise_find env (relabel_exercises g st) q lim
     = map_sum id (map (\<lambda>e. e\<lparr>e_id := g e\<rparr>)) (Exercise_find env st q lim)"
proof -
  let ?f = "\<lambda>e. e\<lparr>e_id := g e\<rparr>"
  have m: "matches q (?f e) = matches q e" for e
    by (simp add: matches_def split: option.split)
  have "filter (matches q) (map ?f (exercises st)) = map ?f (filter (matches q) (exercises st))"
    by (simp add: filter_map o_def m)
  moreover have "sort_key e_date (map ?f xs) = map ?f (sort_key e_date xs)" for xs
    by (rule sort_key_map_same) simp
  ultimately show ?thesis
    by (simp add: Exercise_find_def relabel_exercises_def Let_def take_map split: option.split)
qed

lemma log_entry_relabel: "log_entry env (e\<lparr>e_id := i\<rparr>) = log_entry env e"
  by (simp add: log_entry_def)

lemma User_findById_relabel:
  "User_findById env (relabel_exercises g st) ident = User_findById env st ident"
  by (simp add: User_findById_def relabel_exercises_def split: option.split)

lemma get_logs_relabel:
  "fst (get_logs env (relabel_exercises g st) ident from to limit)
     = fst (get_logs env st ident from to limit)"
proof (cases "User_findById env st ident")
  case (Inl e)
  then show ?thesis
    by (simp add: get_logs_def get_logs_try_def User_findById_relabel catch_next_Inl)
next
  case (Inr found)
  show ?thesis
  proof (cases found)
    case None
    with Inr show ?thesis
      by (simp add: get_logs_def get_logs_try_def User_findById_relabel catch_next_Inr)
  next
    case (Some user)
    show ?thesis
    proof (cases "Exercise_find env st (build_query env (u_id user) from to) (cursor_limit limit)")
      case (Inl e)
      with Inr Some show ?thesis
        by (simp add: get_logs_def get_logs_try_def User_findById_relabel Exercise_find_relabel
            catch_next_Inl)
    next
      case (Inr exs)
      with \<open>User_findById env st ident = Inr found\<close> Some show ?thesis
        by (simp add: get_logs_def get_logs_try_def User_findById_relabel Exercise_find_relabel
            catch_next_Inr o_def log_entry_relabel)
    qed
  qed
qed

lemma post_exercises_fresh_id:
  "fst (post_exercises (env\<lparr>fresh_id := i\<rparr>) st ident description duration date)
     = fst (post_exercises env st ident description duration date)"
proof -
  have u: "User_findById (env\<lparr>fresh_id := i\<rparr>) st ident = User_findById env st ident"
    by (simp add: User_findById_def split: option.split)
  have d: "exercise_date (env\<lparr>fresh_id := i\<rparr>) date = exercise_date env date"
    by (cases date) (simp_all add: exercise_date_def Date_parse_def split: option.split)
  have t: "toDateString (env\<lparr>fresh_id := i\<rparr>) x = toDateString env x" for x
    by (simp add: toDateString_def)
  show ?thesis
  proof (cases "User_findById env st ident")
    case (Inl e)
    then show ?thesis using u by (simp add: post_exercises_lookup_fails)
  next
    case (Inr found)
    show ?thesis
    proof (cases found)
      case None
      with Inr show ?thesis using u by (simp add: post_exercises_no_user)
    next
      case (Some user)
      with Inr have a: "User_findById env st ident = Inr (Some user)"
        and b: "User_findById (env\<lparr>fresh_id := i\<rparr>) st ident = Inr (Some user)"
        using u by simp_all
      show ?thesis
      proof (cases "\<exists>s. description = VStr s")
        case True
        then obtain s where "description = VStr s" by blast
        then show ?thesis
          by (simp add: post_exercises_string [OF a] post_exercises_string [OF b]
              exercise_response_def created_exercise_def d t split: option.split)
      next
        case False
        then show ?thesis
          by (simp add: post_exercises_not_string [OF a] post_exercises_not_string [OF b])
      qed
    qed
  qed
qed

lemma keys_log_entry: "keys (log_entry env e) = [''description'', ''duration'', ''date'']"
  by (simp add: log_entry_def)

lemma is_digit_not_ws: "is_digit c \<Longrightarrow> \<not> is_ws c \<and> c \<noteq> cu CHR ''+'' \<and> c \<noteq> cu CHR ''-''"
  by (auto simp: is_digit_def is_ws_def cu_values)

lemma sign_not_ws: "\<not> is_ws (cu CHR ''+'')" "\<not> is_ws (cu CHR ''-'')"
  by (simp_all add: is_ws_def cu_values)

lemma takeWhile_digit_Nil: "takeWhile is_digit s = [] \<longleftrightarrow> (s = [] \<or> \<not> is_digit (hd s))"
  by (cases s) simp_all




text \<open>
  Some dates of the model against the calendar: the epoch, the last day of a century, the
  leap days of 2000 and 2024, the days after the missing leap days of 1900 and 2100, a day
  before the epoch and the first day of the year 0.
\<close>

lemma calendar_examples:
  "toDateString demo_env 0 = str ''Thu Jan 01 1970''"
  "toDateString demo_env 946598400000 = str ''Fri Dec 31 1999''"
  "toDateString demo_env 951782400000 = str ''Tue Feb 29 2000''"
  "toDateString demo_env 1709164800000 = str ''Thu Feb 29 2024''"
  "toDateString demo_env (- 2203891200000) = str ''Thu Mar 01 1900''"
  "toDateString demo_env 4107542400000 = str ''Mon Mar 01 2100''"
  "toDateString demo_env (- 1) = str ''Wed Dec 31 1969''"
  "toDateString demo_env (- 62167219200000) = str ''Sat Jan 01 0000''"
  "iso_date_only (str ''1999-12-31'') = Some 946598400000"
  "iso_date_only (str ''2000-02-29'') = Some 951782400000"
  "iso_date_only (str ''2024-02-29'') = Some 1709164800000"
  "iso_date_only (str ''1900-03-01'') = Some (- 2203891200000)"
  "iso_date_only (str ''2100-03-01'') = Some 4107542400000"
  "iso_date_only (str ''0000-01-01'') = Some (- 62167219200000)"
  "iso_date_only (str ''2023-02-29'') = None"
  by code_simp+

lemma digits_val_snoc: "digits_val (ds @ [c]) = 10 * digits_val ds + digit_val c"
  by (simp add: digits_val_def)

lemma digits_val_nat_digits: "digits_val (nat_digits n) = int n"
proof (induction n rule: nat_digits.induct)
  case (1 n)
  show ?case
  proof (cases "n < 10")
    case True
    then show ?thesis
      using digit_char_digit [of "int n"]
      by (simp add: nat_digits.simps [of n] digits_val_def)
  next
    case False
    have "digit_val (digit_char (int (n mod 10))) = int (n mod 10)"
      using digit_char_digit [of "int (n mod 10)"] by simp
    with False 1 have "digits_val (nat_digits n) = 10 * int (n div 10) + int (n mod 10)"
      by (simp add: nat_digits.simps [of n] digits_val_snoc)
    then show ?thesis by presburger
  qed
qed

lemma parseInt_int_string: "parseInt (VNum n) = Some n"
proof -
  define ds where "ds = nat_digits (nat \<bar>n\<bar>)"
  have ds: "list_all is_digit ds" "ds \<noteq> []"
    using nat_digits_digits by (simp_all add: ds_def)
  then have hd: "is_digit (hd ds)" by (cases ds) simp_all
  have tw: "takeWhile is_digit ds = ds"
    using ds(1) by (simp add: takeWhile_eq_all_conv list_all_iff)
  have dw: "dropWhile is_ws ds = ds"
    using ds(2) hd is_digit_not_ws by (cases ds) simp_all
  have v: "digits_val ds = \<bar>n\<bar>" by (simp add: ds_def digits_val_nat_digits)
  show ?thesis
  proof (cases "n < 0")
    case True
    then have "int_string n = cu CHR ''-'' # ds" by (simp add: int_string_def ds_def)
    then show ?thesis
      using True sign_not_ws v ds(2)
      by (simp add: parseInt_def parseInt10_def trim_start_def Let_def tw)
  next
    case False
    then have "int_string n = ds" by (simp add: int_string_def ds_def)
    then show ?thesis
      using False v ds(2) is_digit_not_ws [OF hd]
      by (simp add: parseInt_def parseInt10_def trim_start_def Let_def tw dw)
  qed
qed

text \<open>
  A number is never refused by \<open>parseInt\<close> (its text begins with a digit, after a minus
  sign if it is negative), and an integer up to \<open>2^53\<close> is read back as itself.
\<close>

lemma parseInt_number: "parseInt (VNum n) \<noteq> None"
  by (simp add: parseInt_int_string)

lemma parseInt_safe_integer: "\<bar>n\<bar> \<le> 2 ^ 53 \<Longrightarrow> parseInt (VNum n) = Some n"
  by (simp add: parseInt_int_string)

text \<open>
  White space beyond ASCII: a no-break space before the digits of a duration is skipped, a
  description of one no-break space is blank, a byte order mark and an ideographic space
  around a word are trimmed, and a blank description is refused whatever the duration.
\<close>

lemma white_space_examples:
  "parseInt10 (0xA0 # str ''30'') = Some 30"
  "parseInt10 ([0x2003, 0x09] @ str ''-7 km'') = Some (- 7)"
  "trim [0xA0] = []"
  "trim ([0xFEFF] @ str ''run'' @ [0x3000, 0x20]) = str ''run''"
  "fst (post_exercises demo_env demo_store (str ''u1'') (VStr [0xA0]) (VStr (str ''30''))
          VUndefined) = invalid_exercise"
  "fst (post_users demo_env demo_store (VStr [0x2028, 0xA0])) = invalid_username"
  by code_simp+

lemma blank_description_is_invalid:
  assumes "User_findById env st ident = Inr (Some user)" and "trim s = []"
  shows "post_exercises env st ident (VStr s) duration date = (invalid_exercise, st)"
  using assms by (simp add: post_exercises_string)

subsection \<open>The claims\<close>

text \<open>
  C1. The filter of the logs query is on the user's id; its lower bound is the bound that
  \<open>from\<close> yields (\<open>from\<close> is present and parses as a valid date) and its upper bound the
  one that \<open>to\<close> yields; it has no \<open>date\<close> key exactly when neither yields a bound. So a
  record matches exactly when it is the user's and within the bounds that are valid; an
  invalid \<open>from\<close> with a valid \<open>to\<close> leaves the upper bound alone in the filter. Whatever
  the two parameters are, the request of an existing user on a store that answers is
  answered with status 200.
\<close>

theorem logs_filter_has_exactly_the_valid_bounds:
  "q_userId (build_query env uid from to) = uid
   \<and> lower_bound (build_query env uid from to) = bound_of env from
   \<and> upper_bound (build_query env uid from to) = bound_of env to
   \<and> (q_date (build_query env uid from to) = None
        \<longleftrightarrow> bound_of env from = None \<and> bound_of env to = None)
   \<and> (matches (build_query env uid from to) e \<longleftrightarrow>
        e_userId e = uid \<and>
        (case bound_of env from of None \<Rightarrow> True | Some lo \<Rightarrow> lo \<le> e_date e) \<and>
        (case bound_of env to of None \<Rightarrow> True | Some hi \<Rightarrow> e_date e \<le> hi))
   \<and> (bound_of env from = None \<and> bound_of env to = Some hi \<longrightarrow>
        q_date (build_query env uid from to) = Some \<lparr>c_gte = None, c_lte = Some hi\<rparr>)
   \<and> (User_findById env st ident = Inr (Some user) \<and> \<not> find_fails env \<longrightarrow>
        status (fst (get_logs env st ident from to limit)) = 200
        \<and> snd (get_logs env st ident from to limit) = st)"
proof -
  have "q_userId (build_query env uid from to) = uid"
    by (simp add: build_query_eq)
  moreover have "lower_bound (build_query env uid from to) = bound_of env from"
    by (simp add: build_query_eq lower_bound_def)
  moreover have "upper_bound (build_query env uid from to) = bound_of env to"
    by (simp add: build_query_eq upper_bound_def)
  moreover have "q_date (build_query env uid from to) = None
        \<longleftrightarrow> bound_of env from = None \<and> bound_of env to = None"
    by (simp add: build_query_eq)
  moreover have "bound_of env from = None \<and> bound_of env to = Some hi \<longrightarrow>
        q_date (build_query env uid from to) = Some \<lparr>c_gte = None, c_lte = Some hi\<rparr>"
    by (simp add: build_query_eq)
  moreover have "User_findById env st ident = Inr (Some user) \<and> \<not> find_fails env \<longrightarrow>
        status (fst (get_logs env st ident from to limit)) = 200
        \<and> snd (get_logs env st ident from to limit) = st"
    by (simp add: get_logs_found logs_response_def status_simps)
  ultimately show ?thesis using matches_build_query [of env uid "from" to e] by blast
qed

theorem logs_filter_has_exactly_the_valid_bounds_witness:
  "bound_of demo_env (Some (str ''yesterday'')) = None
   \<and> bound_of demo_env (Some (str ''2023-01-16'')) = Some 1673827200000
   \<and> q_date (build_query demo_env (str ''u1'') (Some (str ''yesterday'')) (Some (str
       ''2023-01-16'')))
       = Some \<lparr>c_gte = None, c_lte = Some 1673827200000\<rparr>
   \<and> User_findById demo_env demo_store (str ''u1'') = Inr (Some demo_user) \<and> \<not> find_fails demo_env
   \<and> status (fst (get_logs demo_env demo_store (str ''u1'') (Some (str ''yesterday''))
                    (Some (str ''2023-01-16'')) None)) = 200"
proof -
  have 1: "bound_of demo_env (Some (str ''yesterday'')) = None"
    and 2: "bound_of demo_env (Some (str ''2023-01-16'')) = Some 1673827200000"
    by code_simp+
  have 3: "\<not> find_fails demo_env" by (simp add: demo_env_def)
  from logs_filter_has_exactly_the_valid_bounds
         [of demo_env "str ''u1''" "Some (str ''yesterday'')" "Some (str ''2023-01-16'')" _
             1673827200000
             demo_store "str ''u1''" demo_user None]
    1 2 3 demo_lookup
  show ?thesis by simp
qed

text \<open>
  C2. For an existing user on a store that answers, the log of the response is made from
  the matching records in ascending order of date: all of them when \<open>limit\<close> is absent or
  \<open>parseInt\<close> reads no number or a number that is not positive from it, the first \<open>n\<close> of
  them when it reads the positive number \<open>n\<close>.
\<close>

theorem logs_sorted_and_limited:
  assumes "User_findById env st ident = Inr (Some user)" and "\<not> find_fails env"
  shows "\<exists>all.
           mset all = mset (filter (matches (build_query env (u_id user) from to))
                              (exercises st))
           \<and> sorted (map e_date all)
           \<and> field ''log'' (body (fst (get_logs env st ident from to limit)))
               = Some (JArray (map (log_entry env)
                    (case parseInt (qparam limit) of
                       None \<Rightarrow> all
                     | Some n \<Rightarrow> if 0 < n then take (nat n) all else all)))
           \<and> parseInt (qparam None) = None"
proof -
  let ?all = "sort_key e_date (filter (matches (build_query env (u_id user) from to))
                                 (exercises st))"
  have "mset ?all = mset (filter (matches (build_query env (u_id user) from to))
                            (exercises st))"
    by simp
  moreover have "sorted (map e_date ?all)" by (rule sorted_sort_key)
  moreover have "field ''log'' (body (fst (get_logs env st ident from to limit)))
               = Some (JArray (map (log_entry env)
                    (case parseInt (qparam limit) of
                       None \<Rightarrow> ?all
                     | Some n \<Rightarrow> if 0 < n then take (nat n) ?all else ?all)))"
    using assms
    by (simp add: get_logs_found field_logs_response cursor_limit_def split: option.split)
  ultimately show ?thesis using parseInt_absent by blast
qed

theorem logs_sorted_and_limited_witness:
  "User_findById demo_env demo_store (str ''u1'') = Inr (Some demo_user) \<and> \<not> find_fails demo_env
   \<and> parseInt (qparam (Some (str ''2''))) = Some 2
   \<and> field ''log'' (body (fst (get_logs demo_env demo_store (str ''u1'') None None (Some (str
       ''2'')))))
       = Some (JArray [JObject [(''description'', JString (str ''run'')), (''duration'', JNumber
           30),
                                (''date'', JString (str ''Sun Jan 15 2023''))],
                       JObject [(''description'', JString (str ''row'')), (''duration'', JNumber
                           20),
                                (''date'', JString (str ''Mon Jan 16 2023''))]])
   \<and> (\<exists>all.
         mset all = mset (filter (matches (build_query demo_env (u_id demo_user) None None))
                            (exercises demo_store))
         \<and> sorted (map e_date all)
         \<and> field ''log'' (body (fst (get_logs demo_env demo_store (str ''u1'') None None (Some
             (str ''2'')))))
             = Some (JArray (map (log_entry demo_env) (take 2 all))))"
proof -
  have 1: "\<not> find_fails demo_env" by (simp add: demo_env_def)
  have 2: "parseInt (qparam (Some (str ''2''))) = Some 2" by code_simp
  have 3: "field ''log'' (body (fst (get_logs demo_env demo_store (str ''u1'') None None (Some
      (str ''2'')))))
       = Some (JArray [JObject [(''description'', JString (str ''run'')), (''duration'', JNumber
           30),
                                (''date'', JString (str ''Sun Jan 15 2023''))],
                       JObject [(''description'', JString (str ''row'')), (''duration'', JNumber
                           20),
                                (''date'', JString (str ''Mon Jan 16 2023''))]])"
    by code_simp
  from logs_sorted_and_limited [OF demo_lookup 1, of None None "Some (str ''2'')"] 2
  have "\<exists>all.
         mset all = mset (filter (matches (build_query demo_env (u_id demo_user) None None))
                            (exercises demo_store))
         \<and> sorted (map e_date all)
         \<and> field ''log'' (body (fst (get_logs demo_env demo_store (str ''u1'') None None (Some
             (str ''2'')))))
             = Some (JArray (map (log_entry demo_env) (take 2 all)))"
    by auto
  with demo_lookup 1 2 3 show ?thesis by blast
qed

text \<open>
  C3. In a response of status 200 to a logs request, \<open>log\<close> is made from the records the
  query gave, after the limit, one entry for each, and \<open>count\<close> is the length of \<open>log\<close>.
  With no \<open>from\<close> and no \<open>to\<close> and \<open>limit=1\<close>, a user with three exercises gets a \<open>log\<close>
  of one entry and \<open>count\<close> 1.
\<close>

theorem logs_count_is_length:
  assumes "get_logs env st ident from to limit = (res, st')" and "status res = 200"
  shows "\<exists>user exs log.
           User_findById env st ident = Inr (Some user)
           \<and> Exercise_find env st (build_query env (u_id user) from to) (cursor_limit limit)
               = Inr exs
           \<and> log = map (log_entry env) exs
           \<and> field ''log'' (body res) = Some (JArray log)
           \<and> field ''count'' (body res) = Some (JNumber (int (length log)))
           \<and> (from = None \<and> to = None \<and> limit = Some (str ''1'')
                \<and> length (filter (\<lambda>e. e_userId e = u_id user) (exercises st)) = 3
              \<longrightarrow> length log = 1 \<and> field ''count'' (body res) = Some (JNumber 1))"
proof -
  from get_logs_ok [OF assms] obtain user where
    u: "User_findById env st ident = Inr (Some user)" and f: "\<not> find_fails env"
    by blast
  let ?q = "build_query env (u_id user) from to"
  let ?found = "sort_key e_date (filter (matches ?q) (exercises st))"
  let ?exs = "case cursor_limit limit of None \<Rightarrow> ?found | Some n \<Rightarrow> take (nat n) ?found"
  have find: "Exercise_find env st ?q (cursor_limit limit) = Inr ?exs"
    using f build_query_no_empty_cond [of env "u_id user" "from" to]
    by (simp add: Exercise_find_def Let_def)
  have res: "res = logs_response env user ?exs"
    using assms(1) u f by (simp add: get_logs_found Let_def)
  have one: "length (map (log_entry env) ?exs) = 1"
    if "from = None" "to = None" "limit = Some (str ''1'')"
      "length (filter (\<lambda>e. e_userId e = u_id user) (exercises st)) = 3"
  proof -
    have "filter (matches ?q) (exercises st)
            = filter (\<lambda>e. e_userId e = u_id user) (exercises st)"
      using that(1,2) by (simp add: matches_build_query bound_of_def cong: filter_cong)
    then have "length ?found = 3" using that(4) by simp
    then show ?thesis using that(3) by (simp add: cursor_limit_one)
  qed
  show ?thesis
    using u find res one
    by (intro exI [of _ user] exI [of _ ?exs] exI [of _ "map (log_entry env) ?exs"])
       (simp add: field_logs_response)
qed

theorem logs_count_is_length_witness:
  "get_logs demo_env demo_store (str ''u1'') None None (Some (str ''1''))
     = (logs_response demo_env demo_user
          [\<lparr>e_id = str ''e2'', e_userId = str ''u1'', e_description = str ''run'', e_duration = 30,
            e_date = 1673740800000\<rparr>], demo_store)
   \<and> status (logs_response demo_env demo_user
          [\<lparr>e_id = str ''e2'', e_userId = str ''u1'', e_description = str ''run'', e_duration = 30,
            e_date = 1673740800000\<rparr>]) = 200
   \<and> length (filter (\<lambda>e. e_userId e = u_id demo_user) (exercises demo_store)) = 3
   \<and> field ''count'' (body (logs_response demo_env demo_user
          [\<lparr>e_id = str ''e2'', e_userId = str ''u1'', e_description = str ''run'', e_duration = 30,
            e_date = 1673740800000\<rparr>])) = Some (JNumber 1)"
proof -
  let ?res = "logs_response demo_env demo_user
          [\<lparr>e_id = str ''e2'', e_userId = str ''u1'', e_description = str ''run'', e_duration = 30,
            e_date = 1673740800000\<rparr>]"
  have 1: "get_logs demo_env demo_store (str ''u1'') None None (Some (str ''1'')) = (?res,
      demo_store)"
    by code_simp
  have 2: "status ?res = 200" by (simp add: logs_response_def status_simps)
  have 3: "length (filter (\<lambda>e. e_userId e = u_id demo_user) (exercises demo_store)) = 3"
    by (simp add: demo_store_def demo_user_def)
  from logs_count_is_length [OF 1 2] demo_lookup 3
  have "field ''count'' (body ?res) = Some (JNumber 1)" by auto
  with 1 2 3 show ?thesis by simp
qed

text \<open>
  C4. When an exercise is created (status 200), one exercise record has been appended to
  the store, and the response's \<open>_id\<close> is the id of the user looked up, which is not the
  new record's id unless the two ids coincide; \<open>description\<close>, \<open>duration\<close> and \<open>date\<close> are
  those of the new record, the date rendered by \<open>toDateString\<close>.
\<close>

theorem create_exercise_returns_user_id:
  assumes "post_exercises env st ident description duration date = (res, st')"
    and "status res = 200"
  shows "\<exists>user ex.
           User_findById env st ident = Inr (Some user) \<and>
           exercises st' = exercises st @ [ex] \<and> e_id ex = fresh_id env \<and>
           field ''_id'' (body res) = Some (JString (u_id user)) \<and>
           (e_id ex \<noteq> u_id user \<longrightarrow> field ''_id'' (body res) \<noteq> Some (JString (e_id ex))) \<and>
           field ''description'' (body res) = Some (JString (e_description ex)) \<and>
           field ''duration'' (body res) = Some (JNumber (e_duration ex)) \<and>
           field ''date'' (body res) = Some (JString (toDateString env (e_date ex)))"
proof -
  from post_exercises_ok [OF assms] obtain user s n where
    u: "User_findById env st ident = Inr (Some user)" and
    st': "st' = st\<lparr>exercises := exercises st @ [created_exercise env user s n date]\<rparr>" and
    res: "res = exercise_response env user (created_exercise env user s n date)"
    by blast
  let ?ex = "created_exercise env user s n date"
  have "exercises st' = exercises st @ [?ex]" using st' by simp
  moreover have "e_id ?ex = fresh_id env" by (simp add: created_exercise_def)
  ultimately show ?thesis using u res
    by (intro exI [of _ user] exI [of _ ?ex]) (simp add: field_exercise_response)
qed

theorem create_exercise_returns_user_id_witness:
  "post_exercises demo_env demo_store (str ''u1'') (VStr (str ''test run'')) (VNum 30) (VStr (str
      ''2023-01-15''))
     = (exercise_response demo_env demo_user
          \<lparr>e_id = str ''e9'', e_userId = str ''u1'', e_description = str ''test run'', e_duration
              = 30,
            e_date = 1673740800000\<rparr>,
        demo_store\<lparr>exercises := exercises demo_store @
          [\<lparr>e_id = str ''e9'', e_userId = str ''u1'', e_description = str ''test run'', e_duration
              = 30,
            e_date = 1673740800000\<rparr>]\<rparr>)
   \<and> status (exercise_response demo_env demo_user
          \<lparr>e_id = str ''e9'', e_userId = str ''u1'', e_description = str ''test run'', e_duration
              = 30,
            e_date = 1673740800000\<rparr>) = 200
   \<and> field ''_id'' (body (exercise_response demo_env demo_user
          \<lparr>e_id = str ''e9'', e_userId = str ''u1'', e_description = str ''test run'', e_duration
              = 30,
            e_date = 1673740800000\<rparr>)) = Some (JString (str ''u1''))
   \<and> field ''_id'' (body (exercise_response demo_env demo_user
          \<lparr>e_id = str ''e9'', e_userId = str ''u1'', e_description = str ''test run'', e_duration
              = 30,
            e_date = 1673740800000\<rparr>)) \<noteq> Some (JString (str ''e9''))"
proof -
  let ?ex = "\<lparr>e_id = str ''e9'', e_userId = str ''u1'', e_description = str ''test run'',
      e_duration = 30,
              e_date = 1673740800000\<rparr>"
  let ?res = "exercise_response demo_env demo_user ?ex"
  let ?st = "demo_store\<lparr>exercises := exercises demo_store @ [?ex]\<rparr>"
  have 1: "post_exercises demo_env demo_store (str ''u1'') (VStr (str ''test run'')) (VNum 30)
             (VStr (str ''2023-01-15'')) = (?res, ?st)"
    by code_simp
  have 2: "status ?res = 200" by (simp add: status_simps exercise_response_def)
  from create_exercise_returns_user_id [OF 1 2] obtain user and ex :: exercise where
    u: "User_findById demo_env demo_store (str ''u1'') = Inr (Some user)" and
    i: "field ''_id'' (body ?res) = Some (JString (u_id user))" and
    e: "e_id ex = fresh_id demo_env" and
    n: "e_id ex \<noteq> u_id user \<longrightarrow> field ''_id'' (body ?res) \<noteq> Some (JString (e_id ex))"
    by blast
  from u have user: "u_id user = str ''u1''" by (auto simp: demo_lookup demo_user_def)
  from e have ex: "e_id ex = str ''e9''" by (simp add: demo_env_def)
  from i user have 3: "field ''_id'' (body ?res) = Some (JString (str ''u1''))" by simp
  from n user ex have 4: "field ''_id'' (body ?res) \<noteq> Some (JString (str ''e9''))" by simp
  from 1 2 3 4 show ?thesis by simp
qed

text \<open>
  C5. A request to create an exercise for an id that casts to a document id, on a store that
  answers the lookup and holds no user of that id, is answered with the unknown-user
  response (status 400) and leaves the store as it was, whatever the description, the
  duration and the date are: the user is looked up before any field is examined.
\<close>

theorem unknown_user_before_validation:
  assumes "cast_id env ident = Some i" and "\<not> findById_fails env"
    and "i \<notin> set (map u_id (users st))"
  shows "post_exercises env st ident description duration date = (unknown_user, st)
         \<and> status unknown_user = 400
         \<and> body unknown_user = JObject [(''error'', JString (str ''unknown userId''))]"
proof -
  have "\<forall>u \<in> set (users st). u_id u \<noteq> i" using assms(3) by auto
  from User_findById_None [OF assms(1,2) this] show ?thesis
    by (simp add: post_exercises_no_user status_simps) (simp add: unknown_user_def bad_request_def)
qed

theorem unknown_user_before_validation_witness:
  "cast_id demo_env (str ''u2'') = Some (str ''u2'') \<and> \<not> findById_fails demo_env
   \<and> str ''u2'' \<notin> set (map u_id (users demo_store))
   \<and> post_exercises demo_env demo_store (str ''u2'') (VStr (str '''')) (VStr (str ''abc'')) (VStr
       (str ''nonsense''))
       = (unknown_user, demo_store)"
proof -
  have 1: "cast_id demo_env (str ''u2'') = Some (str ''u2'')" and 2: "\<not> findById_fails demo_env"
    by (simp_all add: demo_env_def)
  have 3: "str ''u2'' \<notin> set (map u_id (users demo_store))"
    by (simp add: demo_store_def demo_user_def)
  from unknown_user_before_validation [OF 1 2 3] 1 2 3 show ?thesis by simp
qed

text \<open>
  C6. The date of a created exercise: the clock's time when the \<open>date\<close> field is absent
  (or another value that counts as false) or is no valid date; the parsed date when the
  field is a string that parses, and the date of any other value that counts as true and
  is a valid date. A string that does not parse gives the response and the
  store that the request without the field gives. The date so determined is the date of
  the record stored and, rendered, the date of the response.
\<close>

theorem exercise_date_defaults_to_now:
  "(date = VUndefined \<or> \<not> truthy date \<or> new_Date env date = None
      \<longrightarrow> exercise_date env date = now env)
   \<and> (Date_parse env s = None
        \<longrightarrow> post_exercises env st ident description duration (VStr s)
              = post_exercises env st ident description duration VUndefined)
   \<and> (Date_parse env s = Some t \<longrightarrow> exercise_date env (VStr s) = t)
   \<and> (truthy date \<and> new_Date env date = Some t' \<longrightarrow> exercise_date env date = t')
   \<and> (post_exercises env st ident description duration date = (res, st') \<and> status res = 200
        \<longrightarrow> (\<exists>ex. exercises st' = exercises st @ [ex]
                 \<and> e_date ex = exercise_date env date
                 \<and> field ''date'' (body res)
                     = Some (JString (toDateString env (exercise_date env date)))))"
proof (intro conjI impI)
  assume "date = VUndefined \<or> \<not> truthy date \<or> new_Date env date = None"
  then show "exercise_date env date = now env"
    using exercise_date_invalid exercise_date_falsy by auto
next
  assume "Date_parse env s = None"
  then have "exercise_date env (VStr s) = exercise_date env VUndefined"
    by (simp add: exercise_date_invalid)
  then show "post_exercises env st ident description duration (VStr s)
              = post_exercises env st ident description duration VUndefined"
    by (rule post_exercises_date_only)
next
  assume "Date_parse env s = Some t"
  then show "exercise_date env (VStr s) = t" by (rule exercise_date_parsed)
next
  assume "truthy date \<and> new_Date env date = Some t'"
  then show "exercise_date env date = t'" by (simp add: exercise_date_def)
next
  assume "post_exercises env st ident description duration date = (res, st')
          \<and> status res = 200"
  then obtain user s n where
    st': "st' = st\<lparr>exercises := exercises st @ [created_exercise env user s n date]\<rparr>" and
    res: "res = exercise_response env user (created_exercise env user s n date)"
    using post_exercises_ok [of env st ident description duration date res st'] by blast
  have "e_date (created_exercise env user s n date) = exercise_date env date"
    by (simp add: created_exercise_def)
  then show "\<exists>ex. exercises st' = exercises st @ [ex]
                 \<and> e_date ex = exercise_date env date
                 \<and> field ''date'' (body res)
                     = Some (JString (toDateString env (exercise_date env date)))"
    using st' res
    by (intro exI [of _ "created_exercise env user s n date"])
       (simp add: field_exercise_response)
qed

theorem exercise_date_defaults_to_now_witness:
  "Date_parse demo_env (str ''next week'') = None
   \<and> new_Date demo_env (VStr (str ''next week'')) = None
   \<and> exercise_date demo_env (VStr (str ''next week'')) = now demo_env
   \<and> post_exercises demo_env demo_store (str ''u1'') (VStr (str ''run'')) (VStr (str ''30''))
       (VStr (str ''next week''))
       = post_exercises demo_env demo_store (str ''u1'') (VStr (str ''run'')) (VStr (str ''30''))
           VUndefined
   \<and> status (fst (post_exercises demo_env demo_store (str ''u1'') (VStr (str ''run'')) (VStr (str
       ''30''))
                     VUndefined)) = 200
   \<and> field ''date'' (body (fst (post_exercises demo_env demo_store (str ''u1'') (VStr (str ''run''))
                                  (VStr (str ''30'')) VUndefined)))
       = Some (JString (toDateString demo_env (now demo_env)))
   \<and> Date_parse demo_env (str ''2023-01-15'') = Some 1673740800000
   \<and> exercise_date demo_env (VStr (str ''2023-01-15'')) = 1673740800000
   \<and> exercise_date demo_env (VNum 86400000) = 86400000"
proof -
  note inst = exercise_date_defaults_to_now
  have 1: "Date_parse demo_env (str ''next week'') = None" by code_simp
  then have 2: "new_Date demo_env (VStr (str ''next week'')) = None" by simp
  have 3: "Date_parse demo_env (str ''2023-01-15'') = Some 1673740800000" by (rule iso_2023_01_15)
  have 4: "status (fst (post_exercises demo_env demo_store (str ''u1'') (VStr (str ''run'')) (VStr
      (str ''30''))
                     VUndefined)) = 200"
    by code_simp
  have 5: "exercise_date demo_env (VStr (str ''next week'')) = now demo_env"
    using inst [of "VStr (str ''next week'')" demo_env] 2 by blast
  have 6: "post_exercises demo_env demo_store (str ''u1'') (VStr (str ''run'')) (VStr (str ''30''))
             (VStr (str ''next week''))
       = post_exercises demo_env demo_store (str ''u1'') (VStr (str ''run'')) (VStr (str ''30''))
           VUndefined"
    using inst [of _ demo_env "str ''next week''"] 1 by blast
  have 7: "exercise_date demo_env (VStr (str ''2023-01-15'')) = 1673740800000"
    using inst [of _ demo_env "str ''2023-01-15''" _ _ _ _ 1673740800000] 3 by blast
  have 9: "exercise_date demo_env (VNum 86400000) = 86400000"
    using inst [of "VNum 86400000" demo_env _ _ _ _ _ _ 86400000]
    by (simp add: TimeClip_def)
  obtain res st' where r: "post_exercises demo_env demo_store (str ''u1'') (VStr (str ''run''))
                             (VStr (str ''30'')) VUndefined = (res, st')"
    by (cases "post_exercises demo_env demo_store (str ''u1'') (VStr (str ''run'')) (VStr (str
        ''30'')) VUndefined")
  with 4 have "status res = 200" by simp
  with r inst [of VUndefined demo_env _ demo_store "str ''u1''" "VStr (str ''run'')" "VStr (str
      ''30'')" _ _ res st']
  have "field ''date'' (body res)
          = Some (JString (toDateString demo_env (exercise_date demo_env VUndefined)))"
    by blast
  moreover have "exercise_date demo_env VUndefined = now demo_env"
    by (simp add: exercise_date_falsy)
  ultimately have 8: "field ''date'' (body (fst (post_exercises demo_env demo_store (str ''u1'')
                        (VStr (str ''run'')) (VStr (str ''30'')) VUndefined)))
       = Some (JString (toDateString demo_env (now demo_env)))"
    using r by simp
  from 1 2 3 4 5 6 7 8 9 show ?thesis by blast
qed

text \<open>
  C7, as amended. Every date of a response, the \<open>date\<close> of a created exercise and the
  \<open>date\<close> of every log entry, is rendered by \<open>toDateString\<close>, whose result is always of
  the canonical form. The rendering is of local time: an exercise created with the date
  \<open>2023-01-15\<close> (midnight UTC) is rendered as \<open>Sun Jan 15 2023\<close> when the server's offset
  from UTC at that instant is at least zero and less than a day.
\<close>

theorem dates_rendered_canonically:
  "canonical_date (toDateString env t)
   \<and> (post_exercises env st ident description duration date = (res, st') \<and> status res = 200
        \<longrightarrow> (\<exists>s. field ''date'' (body res) = Some (JString s) \<and> canonical_date s))
   \<and> (get_logs env st ident from to limit = (res2, st2) \<and> status res2 = 200
        \<longrightarrow> (\<exists>log. field ''log'' (body res2) = Some (JArray log)
              \<and> (\<forall>entry \<in> set log.
                    \<exists>s. field ''date'' entry = Some (JString s) \<and> canonical_date s)))
   \<and> (0 \<le> tza env 1673740800000 \<and> tza env 1673740800000 < msPerDay
        \<and> post_exercises env st ident description duration (VStr (str ''2023-01-15'')) = (res3, st3)
        \<and> status res3 = 200
        \<longrightarrow> field ''date'' (body res3) = Some (JString (str ''Sun Jan 15 2023'')))"
proof (intro conjI impI)
  show "canonical_date (toDateString env t)" by (rule toDateString_canonical)
next
  assume a: "post_exercises env st ident description duration date = (res, st')
             \<and> status res = 200"
  then obtain user s n where
    "res = exercise_response env user (created_exercise env user s n date)"
    using post_exercises_ok [of env st ident description duration date res st'] by blast
  then show "\<exists>s. field ''date'' (body res) = Some (JString s) \<and> canonical_date s"
    by (simp add: field_exercise_response toDateString_canonical)
next
  assume a: "get_logs env st ident from to limit = (res2, st2) \<and> status res2 = 200"
  then obtain user where u: "User_findById env st ident = Inr (Some user)"
    and f: "\<not> find_fails env"
    using get_logs_ok [of env st ident "from" to limit res2 st2] by blast
  with a obtain exs where "res2 = logs_response env user exs"
    by (auto simp: get_logs_found)
  then show "\<exists>log. field ''log'' (body res2) = Some (JArray log)
              \<and> (\<forall>entry \<in> set log.
                    \<exists>s. field ''date'' entry = Some (JString s) \<and> canonical_date s)"
    by (auto simp: field_logs_response field_log_entry toDateString_canonical)
next
  assume a: "0 \<le> tza env 1673740800000 \<and> tza env 1673740800000 < msPerDay
        \<and> post_exercises env st ident description duration (VStr (str ''2023-01-15'')) = (res3, st3)
        \<and> status res3 = 200"
  then obtain user s n where
    r: "res3 = exercise_response env user (created_exercise env user s n (VStr (str
        ''2023-01-15'')))"
    using post_exercises_ok [of env st ident description duration "VStr (str ''2023-01-15'')" res3
        st3]
    by blast
  have "exercise_date env (VStr (str ''2023-01-15'')) = 1673740800000"
    by (simp add: exercise_date_def iso_2023_01_15)
  then show "field ''date'' (body res3) = Some (JString (str ''Sun Jan 15 2023''))"
    using a r toDateString_2023_01_15 [of env]
    by (simp add: field_exercise_response created_exercise_def)
qed

theorem dates_rendered_canonically_witness:
  "0 \<le> tza demo_env 1673740800000 \<and> tza demo_env 1673740800000 < msPerDay
   \<and> post_exercises demo_env demo_store (str ''u1'') (VStr (str ''test run'')) (VNum 30) (VStr
       (str ''2023-01-15''))
       = (exercise_response demo_env demo_user
            \<lparr>e_id = str ''e9'', e_userId = str ''u1'', e_description = str ''test run'',
                e_duration = 30,
              e_date = 1673740800000\<rparr>,
          demo_store\<lparr>exercises := exercises demo_store @
            [\<lparr>e_id = str ''e9'', e_userId = str ''u1'', e_description = str ''test run'',
                e_duration = 30,
              e_date = 1673740800000\<rparr>]\<rparr>)
   \<and> status (exercise_response demo_env demo_user
            \<lparr>e_id = str ''e9'', e_userId = str ''u1'', e_description = str ''test run'',
                e_duration = 30,
              e_date = 1673740800000\<rparr>) = 200
   \<and> field ''date'' (body (exercise_response demo_env demo_user
            \<lparr>e_id = str ''e9'', e_userId = str ''u1'', e_description = str ''test run'',
                e_duration = 30,
              e_date = 1673740800000\<rparr>)) = Some (JString (str ''Sun Jan 15 2023''))
   \<and> canonical_date (str ''Sun Jan 15 2023'')
   \<and> status (fst (get_logs demo_env demo_store (str ''u1'') None None None)) = 200
   \<and> (\<exists>log. field ''log'' (body (fst (get_logs demo_env demo_store (str ''u1'') None None None)))
                = Some (JArray log)
          \<and> length log = 3
          \<and> (\<forall>entry \<in> set log.
                \<exists>s. field ''date'' entry = Some (JString s) \<and> canonical_date s))"
proof -
  let ?ex = "\<lparr>e_id = str ''e9'', e_userId = str ''u1'', e_description = str ''test run'',
      e_duration = 30,
              e_date = 1673740800000\<rparr>"
  let ?res = "exercise_response demo_env demo_user ?ex"
  let ?st = "demo_store\<lparr>exercises := exercises demo_store @ [?ex]\<rparr>"
  let ?logs = "get_logs demo_env demo_store (str ''u1'') None None None"
  have 1: "0 \<le> tza demo_env 1673740800000" and 2: "tza demo_env 1673740800000 < msPerDay"
    by (simp_all add: demo_env_def msPerDay_def)
  have 3: "post_exercises demo_env demo_store (str ''u1'') (VStr (str ''test run'')) (VNum 30)
             (VStr (str ''2023-01-15'')) = (?res, ?st)"
    by code_simp
  have 4: "status ?res = 200" by (simp add: status_simps exercise_response_def)
  have 5: "status (fst ?logs) = 200" by code_simp
  have 6: "length (elements (case field ''log'' (body (fst ?logs)) of
                               None \<Rightarrow> JArray [] | Some a \<Rightarrow> a)) = 3"
    by code_simp
  note inst = dates_rendered_canonically
         [of demo_env 0 demo_store "str ''u1''" "VStr (str ''test run'')" "VNum 30" "VStr (str
             ''2023-01-15'')"
             ?res ?st None None None "fst ?logs" "snd ?logs" ?res ?st]
  from inst 1 2 3 4
  have 7: "field ''date'' (body ?res) = Some (JString (str ''Sun Jan 15 2023''))"
    and 8: "\<exists>s. field ''date'' (body ?res) = Some (JString s) \<and> canonical_date s"
    by blast+
  from 7 8 have 9: "canonical_date (str ''Sun Jan 15 2023'')" by auto
  have "?logs = (fst ?logs, snd ?logs)" by simp
  with inst 5 have "\<exists>log. field ''log'' (body (fst ?logs)) = Some (JArray log)
          \<and> (\<forall>entry \<in> set log.
                \<exists>s. field ''date'' entry = Some (JString s) \<and> canonical_date s)"
    by blast
  then obtain log where
    l: "field ''log'' (body (fst ?logs)) = Some (JArray log)" and
    c: "\<forall>entry \<in> set log. \<exists>s. field ''date'' entry = Some (JString s) \<and> canonical_date s"
    by blast
  from 6 l have "length log = 3" by simp
  with l c have 10: "\<exists>log. field ''log'' (body (fst ?logs)) = Some (JArray log)
          \<and> length log = 3
          \<and> (\<forall>entry \<in> set log.
                \<exists>s. field ''date'' entry = Some (JString s) \<and> canonical_date s)"
    by blast
  from 1 2 3 4 5 7 9 10 show ?thesis by blast
qed

theorem date_rendering_counterexample:
  "status (fst (post_exercises west_env demo_store (str ''u1'') (VStr (str ''test run'')) (VNum 30)
                  (VStr (str ''2023-01-15'')))) = 200
   \<and> field ''date'' (body (fst (post_exercises west_env demo_store (str ''u1'') (VStr (str
       ''test run''))
                                  (VNum 30) (VStr (str ''2023-01-15'')))))
       = Some (JString (str ''Sat Jan 14 2023''))
   \<and> field ''date'' (body (fst (post_exercises west_env demo_store (str ''u1'') (VStr (str
       ''test run''))
                                  (VNum 30) (VStr (str ''2023-01-15'')))))
       \<noteq> Some (JString (str ''Sun Jan 15 2023''))"
  by code_simp



text \<open>
  C9. A request that is not answered with status 200 leaves the store as it was, for each
  of the four handlers. The two \<open>GET\<close> handlers never change the store; a \<open>POST\<close> handler
  leaves it as it was or appends one record to one collection, and then the status is 200.
  (The store's insert is atomic in the model: an insert that is rejected stores nothing.)
\<close>

theorem failed_request_leaves_store_unchanged:
  "(status (fst (post_users env st username)) \<noteq> 200
      \<longrightarrow> snd (post_users env st username) = st)
   \<and> (snd (post_users env st username) = st
        \<or> (\<exists>u. snd (post_users env st username) = st\<lparr>users := users st @ [u]\<rparr>))
   \<and> snd (get_users env st) = st
   \<and> (status (fst (post_exercises env st ident description duration date)) \<noteq> 200
        \<longrightarrow> snd (post_exercises env st ident description duration date) = st)
   \<and> (snd (post_exercises env st ident description duration date) = st
        \<or> (\<exists>ex. snd (post_exercises env st ident description duration date)
                  = st\<lparr>exercises := exercises st @ [ex]\<rparr>))
   \<and> snd (get_logs env st ident from to limit) = st"
  using post_users_store [of env st username]
    post_exercises_store [of env st ident description duration date]
    get_users_store [of env st] get_logs_store [of env st ident "from" to limit]
  by blast

theorem failed_request_leaves_store_unchanged_witness:
  "status (fst (post_users demo_env demo_store (VStr (str ''   '')))) \<noteq> 200
   \<and> snd (post_users demo_env demo_store (VStr (str ''   ''))) = demo_store
   \<and> status (fst (post_exercises demo_env demo_store (str ''u1'') (VStr (str ''run'')) (VStr (str
       ''soon''))
                     VUndefined)) \<noteq> 200
   \<and> snd (post_exercises demo_env demo_store (str ''u1'') (VStr (str ''run'')) (VStr (str
       ''soon'')) VUndefined)
       = demo_store
   \<and> status (fst (post_exercises demo_env demo_store (str ''u1'') (VNum 7) (VStr (str ''30''))
                     VUndefined)) = 500
   \<and> snd (post_exercises demo_env demo_store (str ''u1'') (VNum 7) (VStr (str ''30'')) VUndefined)
       = demo_store"
proof -
  have 1: "status (fst (post_users demo_env demo_store (VStr (str ''   '')))) \<noteq> 200"
    by code_simp
  have 2: "status (fst (post_exercises demo_env demo_store (str ''u1'') (VStr (str ''run'')) (VStr
      (str ''soon''))
                     VUndefined)) \<noteq> 200"
    by code_simp
  have 3: "status (fst (post_exercises demo_env demo_store (str ''u1'') (VNum 7) (VStr (str ''30''))
                     VUndefined)) = 500"
    by code_simp
  from failed_request_leaves_store_unchanged
         [of demo_env demo_store "VStr (str ''   '')" "str ''u1''" "VStr (str ''run'')" "VStr (str
             ''soon'')"
             VUndefined] 1 2
  have 4: "snd (post_users demo_env demo_store (VStr (str ''   ''))) = demo_store"
    and 5: "snd (post_exercises demo_env demo_store (str ''u1'') (VStr (str ''run'')) (VStr (str
        ''soon''))
                   VUndefined) = demo_store"
    by blast+
  from failed_request_leaves_store_unchanged
         [of demo_env demo_store VUndefined "str ''u1''" "VNum 7" "VStr (str ''30'')" VUndefined] 3
  have 6: "snd (post_exercises demo_env demo_store (str ''u1'') (VNum 7) (VStr (str ''30''))
      VUndefined)
       = demo_store"
    by simp
  from 1 2 3 4 5 6 show ?thesis by blast
qed

text \<open>
  C10. The id of an exercise record reaches no response: the response to a logs request
  is the same when the ids of the stored exercises are replaced, the response to the
  creation of an exercise is the same whatever id the new record gets, and the two
  handlers of users give the same response whatever exercises the store holds. The keys
  of a log entry are \<open>description\<close>, \<open>duration\<close> and \<open>date\<close> and no other; the keys of the
  response to a created exercise are \<open>_id\<close>, \<open>username\<close>, \<open>description\<close>, \<open>duration\<close> and
  \<open>date\<close>, the \<open>_id\<close> being the user's.
\<close>

theorem exercise_ids_not_exposed:
  "fst (get_logs env (relabel_exercises g st) ident from to limit)
     = fst (get_logs env st ident from to limit)
   \<and> fst (post_exercises (env\<lparr>fresh_id := i\<rparr>) st ident description duration date)
       = fst (post_exercises env st ident description duration date)
   \<and> fst (post_users env (st\<lparr>exercises := xs\<rparr>) username) = fst (post_users env st username)
   \<and> fst (get_users env (st\<lparr>exercises := xs\<rparr>)) = fst (get_users env st)
   \<and> keys (log_entry env e) = [''description'', ''duration'', ''date'']
   \<and> (get_logs env st ident from to limit = (res, st') \<and> status res = 200
        \<longrightarrow> keys (body res) = [''username'', ''count'', ''_id'', ''log'']
            \<and> (\<exists>log. field ''log'' (body res) = Some (JArray log)
                  \<and> (\<forall>entry \<in> set log.
                        keys entry = [''description'', ''duration'', ''date''])))
   \<and> (post_exercises env st ident description duration date = (res2, st2) \<and> status res2 = 200
        \<longrightarrow> keys (body res2) = [''_id'', ''username'', ''description'', ''duration'', ''date'']
            \<and> (\<exists>user. User_findById env st ident = Inr (Some user)
                  \<and> field ''_id'' (body res2) = Some (JString (u_id user))))"
proof (intro conjI impI)
  show "fst (get_logs env (relabel_exercises g st) ident from to limit)
          = fst (get_logs env st ident from to limit)"
    by (rule get_logs_relabel)
  show "fst (post_exercises (env\<lparr>fresh_id := i\<rparr>) st ident description duration date)
          = fst (post_exercises env st ident description duration date)"
    by (rule post_exercises_fresh_id)
  show "fst (post_users env (st\<lparr>exercises := xs\<rparr>) username) = fst (post_users env st username)"
    by (simp add: post_users_def post_users_try_def User_create_def Let_def catch_next_def
        split: sum.split)
  show "fst (get_users env (st\<lparr>exercises := xs\<rparr>)) = fst (get_users env st)"
    by (simp add: get_users_def get_users_try_def User_find_all_def catch_next_def)
  show "keys (log_entry env e) = [''description'', ''duration'', ''date'']"
    by (rule keys_log_entry)
next
  assume a: "get_logs env st ident from to limit = (res, st') \<and> status res = 200"
  then obtain user where u: "User_findById env st ident = Inr (Some user)"
    and f: "\<not> find_fails env"
    using get_logs_ok [of env st ident "from" to limit res st'] by blast
  with a obtain exs where r: "res = logs_response env user exs"
    by (auto simp: get_logs_found)
  show "keys (body res) = [''username'', ''count'', ''_id'', ''log'']"
    by (simp add: r logs_response_def ok_def)
  show "\<exists>log. field ''log'' (body res) = Some (JArray log)
                  \<and> (\<forall>entry \<in> set log.
                        keys entry = [''description'', ''duration'', ''date''])"
    by (auto simp: r field_logs_response keys_log_entry)
next
  assume a: "post_exercises env st ident description duration date = (res2, st2)
             \<and> status res2 = 200"
  then obtain user s n where u: "User_findById env st ident = Inr (Some user)" and
    r: "res2 = exercise_response env user (created_exercise env user s n date)"
    using post_exercises_ok [of env st ident description duration date res2 st2] by blast
  show "keys (body res2) = [''_id'', ''username'', ''description'', ''duration'', ''date'']"
    by (simp add: r exercise_response_def ok_def)
  show "\<exists>user. User_findById env st ident = Inr (Some user)
                  \<and> field ''_id'' (body res2) = Some (JString (u_id user))"
    using u r by (simp add: field_exercise_response)
qed

theorem exercise_ids_not_exposed_witness:
  "status (fst (get_logs demo_env demo_store (str ''u1'') None None None)) = 200
   \<and> keys (body (fst (get_logs demo_env demo_store (str ''u1'') None None None)))
       = [''username'', ''count'', ''_id'', ''log'']
   \<and> map e_id (exercises (relabel_exercises demo_relabel demo_store)) = [str ''xe1'', str ''xe2'',
       str ''xe3'']
   \<and> fst (get_logs demo_env (relabel_exercises demo_relabel demo_store) (str ''u1'') None None None)
       = fst (get_logs demo_env demo_store (str ''u1'') None None None)
   \<and> status (fst (post_exercises demo_env demo_store (str ''u1'') (VStr (str ''run'')) (VStr (str
       ''30''))
                     VUndefined)) = 200
   \<and> keys (body (fst (post_exercises demo_env demo_store (str ''u1'') (VStr (str ''run'')) (VStr
       (str ''30''))
                         VUndefined)))
       = [''_id'', ''username'', ''description'', ''duration'', ''date'']
   \<and> map e_id (exercises (snd (post_exercises other_id_env demo_store (str ''u1'') (VStr (str
       ''run''))
                                  (VStr (str ''30'')) VUndefined)))
       = [str ''e1'', str ''e2'', str ''e3'', str ''e77'']
   \<and> fst (post_exercises other_id_env demo_store (str ''u1'') (VStr (str ''run'')) (VStr (str
       ''30'')) VUndefined)
       = fst (post_exercises demo_env demo_store (str ''u1'') (VStr (str ''run'')) (VStr (str
           ''30'')) VUndefined)"
proof -
  note inst = exercise_ids_not_exposed
  let ?logs = "get_logs demo_env demo_store (str ''u1'') None None None"
  let ?post = "post_exercises demo_env demo_store (str ''u1'') (VStr (str ''run'')) (VStr (str
      ''30'')) VUndefined"
  have 1: "status (fst ?logs) = 200" by code_simp
  have 2: "status (fst ?post) = 200" by code_simp
  have 3: "map e_id (exercises (relabel_exercises demo_relabel demo_store))
             = [str ''xe1'', str ''xe2'', str ''xe3'']"
    by code_simp
  have 4: "map e_id (exercises (snd (post_exercises other_id_env demo_store (str ''u1'') (VStr
      (str ''run''))
                                  (VStr (str ''30'')) VUndefined)))
             = [str ''e1'', str ''e2'', str ''e3'', str ''e77'']"
    by code_simp
  have 5: "keys (body (fst ?logs)) = [''username'', ''count'', ''_id'', ''log'']"
    using inst [of demo_env _ demo_store "str ''u1''" None None None _ _ _ _ _ _ _ "fst ?logs"
                   "snd ?logs"] 1
    by simp
  have 6: "keys (body (fst ?post))
             = [''_id'', ''username'', ''description'', ''duration'', ''date'']"
    using inst [of demo_env _ demo_store "str ''u1''" None None None "str ''e77''" "VStr (str
        ''run'')"
                   "VStr (str ''30'')" VUndefined _ _ _ _ _ "fst ?post" "snd ?post"] 2
    by simp
  have 7: "fst (get_logs demo_env (relabel_exercises demo_relabel demo_store) (str ''u1'')
                  None None None) = fst ?logs"
    using inst [of demo_env demo_relabel demo_store "str ''u1''" None None None] by blast
  have "fst (post_exercises (demo_env\<lparr>fresh_id := str ''e77''\<rparr>) demo_store (str ''u1'') (VStr (str
      ''run''))
               (VStr (str ''30'')) VUndefined) = fst ?post"
    using inst [of demo_env _ demo_store "str ''u1''" None None None "str ''e77''" "VStr (str
        ''run'')"
                   "VStr (str ''30'')" VUndefined] by blast
  then have 8: "fst (post_exercises other_id_env demo_store (str ''u1'') (VStr (str ''run''))
               (VStr (str ''30'')) VUndefined) = fst ?post"
    by (simp add: other_id_env_def)
  from 1 2 3 4 5 6 7 8 show ?thesis by blast
qed

end
